theory Spec2Isabelle
  imports Main "HOL-Library.Word"
begin

section \<open>Go strings and the string library functions the engine calls\<close>

text \<open>
  A Go string is a sequence of bytes; it is modelled as a \<open>string\<close> (a list of 8-bit
  characters), so \<open>length\<close> is Go's \<open>len\<close>. The functions below are the ones of Go's
  \<open>strings\<close>, \<open>strconv\<close> and \<open>unicode/utf8\<close> packages that the repository calls, written
  from their documented behaviour.
\<close>

definition byte :: "nat \<Rightarrow> char" where
  "byte n = Char (n mod 2 = 1) (n div 2 mod 2 = 1) (n div 4 mod 2 = 1) (n div 8 mod 2 = 1)
                 (n div 16 mod 2 = 1) (n div 32 mod 2 = 1) (n div 64 mod 2 = 1)
                 (n div 128 mod 2 = 1)"

text \<open>\<open>utf8.EncodeRune\<close> for a valid code point: one to four bytes.\<close>

definition encodeRune :: "nat \<Rightarrow> string" where
  "encodeRune r =
     (if r < 0x80 then [byte r]
      else if r < 0x800 then [byte (0xC0 + r div 64), byte (0x80 + r mod 64)]
      else if r < 0x10000 then
        [byte (0xE0 + r div 4096), byte (0x80 + r div 64 mod 64), byte (0x80 + r mod 64)]
      else
        [byte (0xF0 + r div 262144), byte (0x80 + r div 4096 mod 64),
         byte (0x80 + r div 64 mod 64), byte (0x80 + r mod 64)])"

text \<open>
  The conversion \<open>rune(x)\<close> of an \<open>int64\<close> keeps the low 32 bits (\<open>rune\<close> is \<open>int32\<close>).
  The conversion \<open>string(r)\<close> of a rune yields the UTF-8 encoding of the code point
  \<open>r\<close>; a value that is no valid code point (negative, above \<open>0x10FFFF\<close>, or a
  surrogate) yields the encoding of the replacement character \<open>U+FFFD\<close>.
\<close>

definition rune :: "64 word \<Rightarrow> 32 word" where
  "rune x = ucast x"

definition runeString :: "32 word \<Rightarrow> string" where
  "runeString r =
     (if sint r < 0 \<or> 0x10FFFF < sint r \<or> (0xD800 \<le> sint r \<and> sint r \<le> 0xDFFF)
      then encodeRune 0xFFFD
      else encodeRune (nat (sint r)))"

definition HasPrefix :: "string \<Rightarrow> string \<Rightarrow> bool" where
  "HasPrefix s prefix = (length prefix \<le> length s \<and> take (length prefix) s = prefix)"

definition HasSuffix :: "string \<Rightarrow> string \<Rightarrow> bool" where
  "HasSuffix s suffix =
     (length suffix \<le> length s \<and> drop (length s - length suffix) s = suffix)"

definition TrimPrefix :: "string \<Rightarrow> string \<Rightarrow> string" where
  "TrimPrefix s prefix = (if HasPrefix s prefix then drop (length prefix) s else s)"

text \<open>\<open>strings.Index\<close>: the position of the first occurrence, \<open>None\<close> for Go's \<open>-1\<close>.\<close>

fun Index :: "string \<Rightarrow> string \<Rightarrow> nat option" where
  "Index [] sep = (if sep = [] then Some 0 else None)"
| "Index (c # cs) sep =
     (if HasPrefix (c # cs) sep then Some 0 else map_option Suc (Index cs sep))"

lemma Index_Some_nonempty: "Index s sep = Some m \<Longrightarrow> sep \<noteq> [] \<Longrightarrow> s \<noteq> []"
  by (cases s) auto

text \<open>
  \<open>strings.Split\<close>: cut at each leftmost occurrence of the separator, as Go's loop does
  (\<open>m := Index(s, sep); a[i] = s[:m]; s = s[m+len(sep):]\<close>, the rest being the last
  part). The repository splits at \<open>==\<close> and at \<open>!=\<close> only; for an empty separator Go
  cuts after each UTF-8 sequence, which is each byte for ASCII text.
\<close>

function Split :: "string \<Rightarrow> string \<Rightarrow> string list" where
  "Split s sep =
     (if sep = [] then map (\<lambda>c. [c]) s
      else case Index s sep of
             None \<Rightarrow> [s]
           | Some m \<Rightarrow> take m s # Split (drop (m + length sep) s) sep)"
  by pat_completeness auto
termination
  by (relation "measure (\<lambda>(s, sep). length s)") (auto dest: Index_Some_nonempty)

declare Split.simps [simp del]

text \<open>
  \<open>strings.TrimSpace\<close> removes leading and trailing white space as \<open>unicode.IsSpace\<close>
  defines it. On bytes this is: while the string starts (ends) with the UTF-8 encoding of
  a white-space code point, remove that encoding. (Go decodes a rune at the end of the
  string; a string ends with the valid encoding of a code point exactly when that code
  point is what Go decodes there.)
\<close>

definition spaceEncodings :: "string list" where
  "spaceEncodings = map encodeRune
     [0x09, 0x0A, 0x0B, 0x0C, 0x0D, 0x20, 0x85, 0xA0, 0x1680,
      0x2000, 0x2001, 0x2002, 0x2003, 0x2004, 0x2005, 0x2006, 0x2007, 0x2008, 0x2009, 0x200A,
      0x2028, 0x2029, 0x202F, 0x205F, 0x3000]"

definition spacePrefix :: "string \<Rightarrow> nat" where
  "spacePrefix s = (case find (HasPrefix s) spaceEncodings of None \<Rightarrow> 0 | Some e \<Rightarrow> length e)"

definition spaceSuffix :: "string \<Rightarrow> nat" where
  "spaceSuffix s = (case find (HasSuffix s) spaceEncodings of None \<Rightarrow> 0 | Some e \<Rightarrow> length e)"

lemma spacePrefix_le: "spacePrefix s \<le> length s"
  by (auto simp: spacePrefix_def HasPrefix_def split: option.splits dest!: find_Some_iff [THEN iffD1])

lemma spaceSuffix_le: "spaceSuffix s \<le> length s"
  by (auto simp: spaceSuffix_def HasSuffix_def split: option.splits dest!: find_Some_iff [THEN iffD1])

function trimLeftSpace :: "string \<Rightarrow> string" where
  "trimLeftSpace s = (if spacePrefix s = 0 then s else trimLeftSpace (drop (spacePrefix s) s))"
  by pat_completeness auto
termination
proof (relation "measure length")
  fix s :: string
  assume "spacePrefix s \<noteq> 0"
  with spacePrefix_le [of s] show "(drop (spacePrefix s) s, s) \<in> measure length"
    by simp
qed simp

function trimRightSpace :: "string \<Rightarrow> string" where
  "trimRightSpace s =
     (if spaceSuffix s = 0 then s else trimRightSpace (take (length s - spaceSuffix s) s))"
  by pat_completeness auto
termination
proof (relation "measure length")
  fix s :: string
  assume "spaceSuffix s \<noteq> 0"
  with spaceSuffix_le [of s] show "(take (length s - spaceSuffix s) s, s) \<in> measure length"
    by simp
qed simp

declare trimLeftSpace.simps [simp del] trimRightSpace.simps [simp del]

definition TrimSpace :: "string \<Rightarrow> string" where
  "TrimSpace s = trimRightSpace (trimLeftSpace s)"

text \<open>
  \<open>strings.Trim\<close> with a cutset of ASCII characters (the repository's cutset is the two
  quote characters) removes the leading and trailing bytes that are in the cutset.
\<close>

definition Trim :: "string \<Rightarrow> string \<Rightarrow> string" where
  "Trim s cutset =
     rev (dropWhile (\<lambda>c. c \<in> set cutset) (rev (dropWhile (\<lambda>c. c \<in> set cutset) s)))"

text \<open>
  \<open>strconv.ParseUint(s, 16, 64)\<close>: the value of a non-empty string of hexadecimal digits
  (no sign, no prefix, no underscore) that fits 64 bits; \<open>None\<close> stands for a non-nil error
  (syntax or range).
\<close>

definition hexDigit :: "char \<Rightarrow> nat option" where
  "hexDigit c =
     (case Index ''0123456789abcdef'' [c] of
        Some d \<Rightarrow> Some d
      | None \<Rightarrow> map_option (\<lambda>d. d + 10) (Index ''ABCDEF'' [c]))"

fun parseHex :: "nat \<Rightarrow> string \<Rightarrow> nat option" where
  "parseHex n [] = Some n"
| "parseHex n (c # cs) =
     (case hexDigit c of
        None \<Rightarrow> None
      | Some d \<Rightarrow> if 2 ^ 64 \<le> n * 16 + d then None else parseHex (n * 16 + d) cs)"

definition ParseUint16 :: "string \<Rightarrow> nat option" where
  "ParseUint16 s = (if s = [] then None else parseHex 0 s)"

section \<open>The session key (conv/conversation.go)\<close>

text \<open>
  \<^verbatim>\<open>return string(rune(userID)) + ":" + string(rune(chatID))\<close>
\<close>

definition conversationKey :: "64 word \<Rightarrow> 64 word \<Rightarrow> string" where
  "conversationKey userID chatID = runeString (rune userID) @ '':'' @ runeString (rune chatID)"

section \<open>Sessions (conv/conversation.go)\<close>

text \<open>
  Times are instants in nanoseconds and durations are nanosecond counts, both integers
  (no overflow of \<open>time.Time\<close> is modelled); every operation reads the clock once and takes
  the instant as its argument \<open>now\<close>.
  The \<open>interface{}\<close> values of the data map are strings, integers, booleans or anything
  else.
\<close>

datatype ConversationState =
  StateIdle | StateWaiting | StateProcessing | StateCompleted | StateCancelled

datatype Value = StringVal string | IntVal int | BoolVal bool | OtherVal

record HistoryEntry =
  EntryStepID :: string
  Input :: string
  Timestamp :: int

record Conversation =
  UserID :: "64 word"
  ChatID :: "64 word"
  TopicID :: int
  FlowID :: string
  StepID :: string
  State :: ConversationState
  Data :: "string \<rightharpoonup> Value"
  KeyboardMsgID :: int
  CreatedAt :: int
  UpdatedAt :: int
  ExpiresAt :: int
  History :: "HistoryEntry list"

definition NewConversation ::
  "int \<Rightarrow> 64 word \<Rightarrow> 64 word \<Rightarrow> int \<Rightarrow> string \<Rightarrow> string \<Rightarrow> int \<Rightarrow> Conversation" where
  "NewConversation now userID chatID topicID flowID stepID ttl =
     \<lparr>UserID = userID, ChatID = chatID, TopicID = topicID, FlowID = flowID, StepID = stepID,
      State = StateWaiting, Data = Map.empty, KeyboardMsgID = 0,
      CreatedAt = now, UpdatedAt = now, ExpiresAt = now + ttl, History = []\<rparr>"

definition Conversation_Set :: "string \<Rightarrow> Value \<Rightarrow> int \<Rightarrow> Conversation \<Rightarrow> Conversation" where
  "Conversation_Set key v now c = c\<lparr>Data := (Data c)(key \<mapsto> v), UpdatedAt := now\<rparr>"

definition Conversation_Get :: "Conversation \<Rightarrow> string \<Rightarrow> Value option" where
  "Conversation_Get c key = Data c key"

definition GetString :: "Conversation \<Rightarrow> string \<Rightarrow> string" where
  "GetString c key =
     (case Conversation_Get c key of
        None \<Rightarrow> []
      | Some v \<Rightarrow> (case v of StringVal s \<Rightarrow> s | _ \<Rightarrow> []))"

definition SetStep :: "string \<Rightarrow> int \<Rightarrow> Conversation \<Rightarrow> Conversation" where
  "SetStep stepID now c = c\<lparr>StepID := stepID, UpdatedAt := now\<rparr>"

definition AddHistory :: "string \<Rightarrow> string \<Rightarrow> int \<Rightarrow> Conversation \<Rightarrow> Conversation" where
  "AddHistory stepID input now c =
     c\<lparr>History := History c @ [\<lparr>EntryStepID = stepID, Input = input, Timestamp = now\<rparr>]\<rparr>"

definition GetPreviousStep :: "Conversation \<Rightarrow> string" where
  "GetPreviousStep c =
     (if 2 \<le> length (History c) then EntryStepID (History c ! (length (History c) - 2))
      else [])"

definition IsExpired :: "int \<Rightarrow> Conversation \<Rightarrow> bool" where
  "IsExpired now c = (ExpiresAt c < now)"

section \<open>The session store (conv/conversation.go, Manager)\<close>

text \<open>
  The manager's map holds pointers to sessions, and the router mutates a session through
  the pointer it got from \<open>Get\<close>. So sessions live in a heap, addressed by numbers, and the
  map sends a key to an address. The callbacks (\<open>onStart\<close>, \<open>onEnd\<close>, \<open>onStepChange\<close>) and
  the calls to the message renderer are code of the library's user; a call of one of them is
  recorded as an event of the trace, in the order of the calls. A callback that is not set
  (\<open>nil\<close>) is the flag \<open>False\<close>. The write \<open>m.conversations[key] = conv\<close> of \<open>Start\<close>, the
  one place where the map gains an entry and the moment from which \<open>Get\<close> finds the new
  session, is recorded too (the event \<open>Installed\<close>), so that the trace of \<open>Start\<close> tells
  whether a hook was called before or after it.
\<close>

type_synonym addr = nat

record CallbackQuery =
  QueryID :: string
  QueryFrom :: "64 word"
  QueryChat :: "64 word"
  QueryData :: string

datatype event =
    OnStart addr
  | OnEnd addr
  | OnStepChange addr string string
  | SendMessage "64 word" int string
  | DeleteMessage "64 word" int
  | AnswerCallback string string
  | CallbackHandlerCall string CallbackQuery
  | DisplayStep addr
  | Installed string addr

record Manager =
  conversations :: "string \<rightharpoonup> addr"
  defaultTTL :: int
  onStart :: bool
  onEnd :: bool
  onStepChange :: bool

record World =
  heap :: "addr \<Rightarrow> Conversation"
  nextAddr :: addr
  mgr :: Manager
  trace :: "event list"

definition emit :: "event \<Rightarrow> World \<Rightarrow> World" where
  "emit ev w = w\<lparr>trace := trace w @ [ev]\<rparr>"

definition alloc :: "Conversation \<Rightarrow> World \<Rightarrow> addr \<times> World" where
  "alloc c w = (nextAddr w, w\<lparr>heap := (heap w)(nextAddr w := c), nextAddr := Suc (nextAddr w)\<rparr>)"

definition updConv :: "addr \<Rightarrow> (Conversation \<Rightarrow> Conversation) \<Rightarrow> World \<Rightarrow> World" where
  "updConv a f w = w\<lparr>heap := (heap w)(a := f (heap w a))\<rparr>"

definition setConversations :: "(string \<rightharpoonup> addr) \<Rightarrow> World \<Rightarrow> World" where
  "setConversations m w = w\<lparr>mgr := (mgr w)\<lparr>conversations := m\<rparr>\<rparr>"

definition NewManager :: "int \<Rightarrow> Manager" where
  "NewManager ttl =
     \<lparr>conversations = Map.empty,
      defaultTTL = (if ttl \<le> 0 then 30 * 60 * 1000000000 else ttl),
      onStart = False, onEnd = False, onStepChange = False\<rparr>"

text \<open>
  \<open>Start\<close> in the order of its statements: under the lock, the end hook on an existing
  session (\<open>Start_endExisting\<close>), then the new session is created and stored in the map
  (\<open>Start_install\<close>); after the lock is released, the start hook (\<open>Start_notify\<close>).
\<close>

definition Start_endExisting :: "string \<Rightarrow> World \<Rightarrow> World" where
  "Start_endExisting key w =
     (case conversations (mgr w) key of
        Some existing \<Rightarrow> if onEnd (mgr w) then emit (OnEnd existing) w else w
      | None \<Rightarrow> w)"

definition Start_install ::
  "int \<Rightarrow> 64 word \<Rightarrow> 64 word \<Rightarrow> int \<Rightarrow> string \<Rightarrow> string \<Rightarrow> int \<Rightarrow> string \<Rightarrow> World \<Rightarrow> addr \<times> World" where
  "Start_install now userID chatID topicID flowID initialStep ttl key w =
     (case alloc (NewConversation now userID chatID topicID flowID initialStep ttl) w of
        (conv, w') \<Rightarrow>
          (conv, emit (Installed key conv)
                   (setConversations ((conversations (mgr w'))(key \<mapsto> conv)) w')))"

definition Start_notify :: "addr \<Rightarrow> World \<Rightarrow> World" where
  "Start_notify conv w = (if onStart (mgr w) then emit (OnStart conv) w else w)"

definition Start ::
  "int \<Rightarrow> 64 word \<Rightarrow> 64 word \<Rightarrow> int \<Rightarrow> string \<Rightarrow> string \<Rightarrow> int \<Rightarrow> World \<Rightarrow> addr \<times> World" where
  "Start now userID chatID topicID flowID initialStep ttl w =
     (case Start_install now userID chatID topicID flowID initialStep
             (if ttl \<le> 0 then defaultTTL (mgr w) else ttl)
             (conversationKey userID chatID)
             (Start_endExisting (conversationKey userID chatID) w) of
        (conv, w') \<Rightarrow> (conv, Start_notify conv w'))"

definition End :: "64 word \<Rightarrow> 64 word \<Rightarrow> World \<Rightarrow> World" where
  "End userID chatID w =
     (case conversations (mgr w) (conversationKey userID chatID) of
        None \<Rightarrow> w
      | Some conv \<Rightarrow>
          (if onEnd (mgr w)
           then emit (OnEnd conv)
                  (setConversations ((conversations (mgr w))(conversationKey userID chatID := None)) w)
           else setConversations ((conversations (mgr w))(conversationKey userID chatID := None)) w))"

definition Get :: "int \<Rightarrow> 64 word \<Rightarrow> 64 word \<Rightarrow> World \<Rightarrow> addr option \<times> World" where
  "Get now userID chatID w =
     (case conversations (mgr w) (conversationKey userID chatID) of
        None \<Rightarrow> (None, w)
      | Some conv \<Rightarrow>
          if IsExpired now (heap w conv) then (None, End userID chatID w) else (Some conv, w))"

definition ChangeStep :: "int \<Rightarrow> 64 word \<Rightarrow> 64 word \<Rightarrow> string \<Rightarrow> World \<Rightarrow> World" where
  "ChangeStep now userID chatID newStep w =
     (case Get now userID chatID w of
        (None, w') \<Rightarrow> w'
      | (Some conv, w') \<Rightarrow>
          (if onStepChange (mgr w')
           then emit (OnStepChange conv (StepID (heap w' conv)) newStep)
                  (updConv conv (SetStep newStep now) w')
           else updConv conv (SetStep newStep now) w'))"

text \<open>
  \<open>Cleanup\<close> ranges over the map, whose iteration order Go leaves open: the order is the
  argument \<open>keys\<close>, an enumeration of the map's keys. The result is the count of removed
  sessions.
\<close>

fun Cleanup_loop :: "int \<Rightarrow> string list \<Rightarrow> nat \<Rightarrow> World \<Rightarrow> nat \<times> World" where
  "Cleanup_loop now [] count w = (count, w)"
| "Cleanup_loop now (key # keys) count w =
     (case conversations (mgr w) key of
        None \<Rightarrow> Cleanup_loop now keys count w
      | Some conv \<Rightarrow>
          if IsExpired now (heap w conv)
          then Cleanup_loop now keys (Suc count)
                 (setConversations ((conversations (mgr w))(key := None))
                    (if onEnd (mgr w) then emit (OnEnd conv) w else w))
          else Cleanup_loop now keys count w)"

definition Cleanup :: "int \<Rightarrow> string list \<Rightarrow> World \<Rightarrow> nat \<times> World" where
  "Cleanup now keys w = Cleanup_loop now keys 0 w"

section \<open>Flow definitions (config/flow.go)\<close>

text \<open>
  The fields the engine and the router read. \<open>MinStr\<close> and \<open>MaxStr\<close> are the fields \<open>Min\<close>
  and \<open>Max\<close>; \<open>BranchNextStep\<close> is the field \<open>NextStep\<close> of a branch; an input type is a
  string, as in the source.
\<close>

record ValidationConfig =
  Type :: string
  Pattern :: string
  ErrorMsg :: string
  MinStr :: string
  MaxStr :: string
  MinLength :: int
  MaxLength :: int
  Custom :: string

record BranchConfig =
  Condition :: string
  BranchNextStep :: string
  Handler :: string

record StepConfig =
  ID :: string
  InputType :: string
  Validation :: "ValidationConfig option"
  NextStep :: string
  Branches :: "BranchConfig list"
  OnComplete :: string
  StoreAs :: string

record FlowConfig =
  InitialStep :: string
  Steps :: "string \<rightharpoonup> StepConfig"
  TTL :: int

record Config =
  Flows :: "string \<rightharpoonup> FlowConfig"

definition InputTypeText :: string where "InputTypeText = ''text''"
definition InputTypeCallback :: string where "InputTypeCallback = ''callback''"
definition InputTypeAny :: string where "InputTypeAny = ''any''"

definition FlowConfig_GetStep :: "FlowConfig \<Rightarrow> string \<Rightarrow> StepConfig option" where
  "FlowConfig_GetStep f stepID = Steps f stepID"

definition Config_GetFlow :: "Config \<Rightarrow> string \<Rightarrow> FlowConfig option" where
  "Config_GetFlow c flowID = Flows c flowID"

section \<open>The flow engine (conv/engine.go)\<close>

text \<open>
  Registered step handlers and custom validators are code of the library's user with the
  session pointer in hand (\<open>func(ctx, conv *Conversation) error\<close> and
  \<open>func(value string, conv *Conversation) error\<close>): each is a function on the world that
  may change it and may report an error. The custom condition evaluator, which no path of
  the router reaches, is taken to read the session only. An \<open>error\<close> is its message,
  \<open>None\<close> being \<open>nil\<close>.

  The float parser and the regular-expression matcher of Go's library are parameters:
  \<open>ParseFloat\<close> (\<open>None\<close> when \<open>strconv.ParseFloat\<close> fails), \<open>FloatLess\<close> (the order \<open><\<close>
  of \<open>float64\<close>) and \<open>MatchString\<close> (\<open>None\<close> when the pattern does not compile).
\<close>

record 'f Lib =
  ParseFloat :: "string \<Rightarrow> 'f option"
  FloatLess :: "'f \<Rightarrow> 'f \<Rightarrow> bool"
  MatchString :: "string \<Rightarrow> string \<Rightarrow> bool option"

record FlowEngine =
  config :: "Config option"
  stepHandlers :: "string \<rightharpoonup> (addr \<Rightarrow> World \<Rightarrow> World \<times> string option)"
  validators :: "string \<rightharpoonup> (string \<Rightarrow> addr \<Rightarrow> World \<Rightarrow> World \<times> string option)"
  conditionEvaluator :: "(Conversation \<Rightarrow> string \<Rightarrow> bool) option"

definition GetFlow :: "FlowEngine \<Rightarrow> string \<Rightarrow> FlowConfig option" where
  "GetFlow e flowID = (case config e of None \<Rightarrow> None | Some cfg \<Rightarrow> Config_GetFlow cfg flowID)"

definition GetStep :: "FlowEngine \<Rightarrow> string \<Rightarrow> string \<Rightarrow> StepConfig option" where
  "GetStep e flowID stepID =
     (case GetFlow e flowID of None \<Rightarrow> None | Some flow \<Rightarrow> FlowConfig_GetStep flow stepID)"

definition getErrorMsg :: "string \<Rightarrow> string \<Rightarrow> string" where
  "getErrorMsg configured defaultMsg = (if configured \<noteq> [] then configured else defaultMsg)"

definition validateNumber :: "'f Lib \<Rightarrow> string \<Rightarrow> ValidationConfig \<Rightarrow> string option" where
  "validateNumber lib input validation =
     (case ParseFloat lib input of
        None \<Rightarrow> Some (getErrorMsg (ErrorMsg validation) ''Please enter a valid number'')
      | Some num \<Rightarrow>
          if MinStr validation \<noteq> [] \<and>
             (case ParseFloat lib (MinStr validation) of
                None \<Rightarrow> False | Some minv \<Rightarrow> FloatLess lib num minv)
          then Some (getErrorMsg (ErrorMsg validation)
                       (''Number cannot be less than '' @ MinStr validation))
          else if MaxStr validation \<noteq> [] \<and>
             (case ParseFloat lib (MaxStr validation) of
                None \<Rightarrow> False | Some maxv \<Rightarrow> FloatLess lib maxv num)
          then Some (getErrorMsg (ErrorMsg validation)
                       (''Number cannot be greater than '' @ MaxStr validation))
          else None)"

text \<open>
  The loop of \<open>validateAddress\<close> ranges over the runes of \<open>input[2:]\<close>. A rune is one of the
  22 hexadecimal digits only if it is a single ASCII byte, and a byte below \<open>0x80\<close> is
  always a rune of its own, so the loop is written over the bytes.
\<close>

definition isHexChar :: "char \<Rightarrow> bool" where
  "isHexChar c = (c \<in> set ''0123456789'' \<or> c \<in> set ''abcdef'' \<or> c \<in> set ''ABCDEF'')"

fun checkHexChars :: "string \<Rightarrow> ValidationConfig \<Rightarrow> string option" where
  "checkHexChars [] validation = None"
| "checkHexChars (c # cs) validation =
     (if \<not> isHexChar c
      then Some (getErrorMsg (ErrorMsg validation) ''Please enter a valid Ethereum address'')
      else checkHexChars cs validation)"

definition validateAddress :: "string \<Rightarrow> ValidationConfig \<Rightarrow> string option" where
  "validateAddress input validation =
     (if length input \<noteq> 42 \<or> \<not> HasPrefix input ''0x''
      then Some (getErrorMsg (ErrorMsg validation) ''Please enter a valid Ethereum address'')
      else case ParseUint16 (drop 2 input) of
             Some n \<Rightarrow> None
           | None \<Rightarrow> checkHexChars (drop 2 input) validation)"

definition emailPattern :: string where
  "emailPattern = ''^[a-zA-Z0-9._%+-]+@[a-zA-Z0-9.-]+'' @ [CHR 0x5C] @ ''.[a-zA-Z]{2,}$''"

definition validateEmail :: "'f Lib \<Rightarrow> string \<Rightarrow> ValidationConfig \<Rightarrow> string option" where
  "validateEmail lib input validation =
     (case MatchString lib emailPattern input of
        Some True \<Rightarrow> None
      | _ \<Rightarrow> Some (getErrorMsg (ErrorMsg validation) ''Please enter a valid email address''))"

definition validateRegex :: "'f Lib \<Rightarrow> string \<Rightarrow> ValidationConfig \<Rightarrow> string option" where
  "validateRegex lib input validation =
     (if Pattern validation = [] then None
      else case MatchString lib (Pattern validation) input of
             None \<Rightarrow> Some ''Validation rule configuration error''
           | Some matched \<Rightarrow>
               if \<not> matched
               then Some (getErrorMsg (ErrorMsg validation) ''Input format is incorrect'')
               else None)"

definition validateCustom ::
  "FlowEngine \<Rightarrow> string \<Rightarrow> ValidationConfig \<Rightarrow> addr \<Rightarrow> World \<Rightarrow> World \<times> string option" where
  "validateCustom e input validation conv w =
     (if Custom validation = [] then (w, None)
      else case validators e (Custom validation) of
             None \<Rightarrow> (w, None)
           | Some validator \<Rightarrow> validator input conv w)"

text \<open>
  \<open>ValidateInput\<close> takes the session pointer; the built-in rules read the input only and
  leave the world as it is, a custom validator gets the pointer and the world.
\<close>

definition ValidateInput ::
  "'f Lib \<Rightarrow> FlowEngine \<Rightarrow> addr \<Rightarrow> string \<Rightarrow> World \<Rightarrow> World \<times> string option" where
  "ValidateInput lib e conv input w =
     (case GetStep e (FlowID (heap w conv)) (StepID (heap w conv)) of
        None \<Rightarrow> (w, None)
      | Some step \<Rightarrow>
          (case Validation step of
             None \<Rightarrow> (w, None)
           | Some validation \<Rightarrow>
               if Type validation = ''number'' then (w, validateNumber lib input validation)
               else if Type validation = ''address'' then (w, validateAddress input validation)
               else if Type validation = ''email'' then (w, validateEmail lib input validation)
               else if Type validation = ''regex'' then (w, validateRegex lib input validation)
               else if Type validation = ''custom'' then validateCustom e input validation conv w
               else (w, None)))"

definition quotes :: string where
  "quotes = [CHR 0x22, CHR 0x27]"

text \<open>\<open>simpleEvaluate\<close> does not use its receiver; the model has no engine argument.\<close>

definition simpleEvaluate :: "Conversation \<Rightarrow> string \<Rightarrow> bool" where
  "simpleEvaluate conv condition =
     (if length (Split condition ''=='') = 2
      then GetString conv (TrimPrefix (TrimSpace (Split condition ''=='' ! 0)) ''data.'')
             = Trim (TrimSpace (Split condition ''=='' ! 1)) quotes
      else if length (Split condition ''!='') = 2
      then GetString conv (TrimPrefix (TrimSpace (Split condition ''!='' ! 0)) ''data.'')
             \<noteq> Trim (TrimSpace (Split condition ''!='' ! 1)) quotes
      else True)"

definition EvaluateCondition :: "FlowEngine \<Rightarrow> Conversation \<Rightarrow> string \<Rightarrow> bool" where
  "EvaluateCondition e conv condition =
     (if condition = [] then True
      else case conditionEvaluator e of
             Some evaluator \<Rightarrow> evaluator conv condition
           | None \<Rightarrow> simpleEvaluate conv condition)"

definition evaluateBranchCondition :: "FlowEngine \<Rightarrow> Conversation \<Rightarrow> string \<Rightarrow> string \<Rightarrow> bool" where
  "evaluateBranchCondition e conv condition input =
     (if HasPrefix condition ''input'' \<and> length (Split condition ''=='') = 2
      then input = Trim (TrimSpace (Split condition ''=='' ! 1)) quotes
      else simpleEvaluate conv condition)"

fun branchLoop :: "FlowEngine \<Rightarrow> Conversation \<Rightarrow> string \<Rightarrow> BranchConfig list \<Rightarrow> string \<Rightarrow> string" where
  "branchLoop e conv input [] dflt = dflt"
| "branchLoop e conv input (branch # branches) dflt =
     (if evaluateBranchCondition e conv (Condition branch) input then BranchNextStep branch
      else branchLoop e conv input branches dflt)"

definition DetermineNextStep :: "FlowEngine \<Rightarrow> Conversation \<Rightarrow> string \<Rightarrow> string" where
  "DetermineNextStep e conv input =
     (case GetStep e (FlowID conv) (StepID conv) of
        None \<Rightarrow> []
      | Some step \<Rightarrow> branchLoop e conv input (Branches step) (NextStep step))"

definition ExecuteStepHandler :: "FlowEngine \<Rightarrow> addr \<Rightarrow> string \<Rightarrow> World \<Rightarrow> World \<times> string option" where
  "ExecuteStepHandler e conv handlerName w =
     (case stepHandlers e handlerName of
        None \<Rightarrow> (w, None)
      | Some handler \<Rightarrow> handler conv w)"

section \<open>The router (handler/router.go)\<close>

text \<open>
  Of a message and of a callback query the router reads the sender, the chat and the
  content. Registered callback handlers and the step display function are code of the
  library's user: the router holds which names are registered and whether the display
  function is set, and a call is an event of the trace. Debug logging is left out.
\<close>

record Message =
  Text :: string
  From :: "64 word"
  Chat :: "64 word"
  MessageThreadID :: int
  MessageID :: int

record Router =
  flowEngine :: FlowEngine
  callbackHandlers :: "string \<Rightarrow> bool"
  stepDisplayFunc :: bool

definition CallbackMainMenu :: string where
  "CallbackMainMenu = ''main_menu''"

definition crossMark :: string where
  "crossMark = [CHR 0xE2, CHR 0x9D, CHR 0x8C, CHR 0x20]"

definition displayStep :: "Router \<Rightarrow> addr \<Rightarrow> World \<Rightarrow> World" where
  "displayStep r c w = (if stepDisplayFunc r then emit (DisplayStep c) w else w)"

definition handleMainMenu :: "Router \<Rightarrow> CallbackQuery \<Rightarrow> World \<Rightarrow> World" where
  "handleMainMenu r query w =
     (let w1 = End (QueryFrom query) (QueryChat query)
                 (emit (AnswerCallback (QueryID query) []) w)
      in if callbackHandlers r (CallbackMainMenu @ ''_internal'')
         then emit (CallbackHandlerCall (CallbackMainMenu @ ''_internal'') query) w1
         else w1)"

definition handleBack :: "Router \<Rightarrow> int \<Rightarrow> CallbackQuery \<Rightarrow> World \<Rightarrow> World" where
  "handleBack r now query w =
     (case Get now (QueryFrom query) (QueryChat query)
             (emit (AnswerCallback (QueryID query) []) w) of
        (Some c, w1) \<Rightarrow>
          if GetPreviousStep (heap w1 c) \<noteq> []
          then displayStep r c
                 (ChangeStep now (QueryFrom query) (QueryChat query)
                    (GetPreviousStep (heap w1 c)) w1)
          else handleMainMenu r query (End (QueryFrom query) (QueryChat query) w1)
      | (None, w1) \<Rightarrow> handleMainMenu r query w1)"

text \<open>
  The four conversation handlers of the router share their middle and their end:
  \<open>storeInput\<close> is "store input data" (\<open>c.Set\<close> under the step's storage key, then
  \<open>c.AddHistory\<close>), and \<open>advance\<close> is what follows (the completion handler if the step
  names one, else \<open>DetermineNextStep\<close>, \<open>ChangeStep\<close> and \<open>displayStep\<close>).
\<close>

definition storeInput :: "StepConfig \<Rightarrow> addr \<Rightarrow> string \<Rightarrow> int \<Rightarrow> World \<Rightarrow> World" where
  "storeInput step c input now w =
     (let w1 = (if StoreAs step \<noteq> []
                then updConv c (Conversation_Set (StoreAs step) (StringVal input) now) w
                else w)
      in updConv c (AddHistory (StepID (heap w1 c)) input now) w1)"

definition advance :: "Router \<Rightarrow> int \<Rightarrow> 64 word \<Rightarrow> StepConfig \<Rightarrow> addr \<Rightarrow> string \<Rightarrow> World \<Rightarrow> World" where
  "advance r now fromID step c input w =
     (if OnComplete step \<noteq> []
      then fst (ExecuteStepHandler (flowEngine r) c (OnComplete step) w)
      else if DetermineNextStep (flowEngine r) (heap w c) input \<noteq> []
      then displayStep r c
             (ChangeStep now fromID (ChatID (heap w c))
                (DetermineNextStep (flowEngine r) (heap w c) input) w)
      else w)"

definition handleConversationMessage ::
  "'f Lib \<Rightarrow> Router \<Rightarrow> int \<Rightarrow> Message \<Rightarrow> addr \<Rightarrow> World \<Rightarrow> World" where
  "handleConversationMessage lib r now msg c w =
     (case GetStep (flowEngine r) (FlowID (heap w c)) (StepID (heap w c)) of
        None \<Rightarrow> w
      | Some step \<Rightarrow>
          if InputType step \<noteq> InputTypeText \<and> InputType step \<noteq> InputTypeAny then w
          else case ValidateInput lib (flowEngine r) c (Text msg) w of
                 (w', Some err) \<Rightarrow>
                   emit (SendMessage (Chat msg) (MessageThreadID msg) (crossMark @ err)) w'
               | (w', None) \<Rightarrow>
                   advance r now (From msg) step c (Text msg)
                     (emit (DeleteMessage (Chat msg) (MessageID msg))
                        (storeInput step c (Text msg) now w')))"

section \<open>Example inputs\<close>

definition dquote :: string where
  "dquote = [CHR 0x22]"

definition exLib :: "int Lib" where
  "exLib = \<lparr>ParseFloat = (\<lambda>s. None), FloatLess = (\<lambda>x y. x < y), MatchString = (\<lambda>p s. None)\<rparr>"

definition exStep :: "ValidationConfig option \<Rightarrow> BranchConfig list \<Rightarrow> StepConfig" where
  "exStep v bs =
     \<lparr>ID = ''s1'', InputType = ''text'', Validation = v, NextStep = ''s9'', Branches = bs,
      OnComplete = [], StoreAs = ''name''\<rparr>"

definition exRule :: "string \<Rightarrow> ValidationConfig" where
  "exRule t =
     \<lparr>Type = t, Pattern = [], ErrorMsg = [], MinStr = [], MaxStr = [], MinLength = 0,
      MaxLength = 0, Custom = []\<rparr>"

definition exBranch :: "string \<Rightarrow> string \<Rightarrow> BranchConfig" where
  "exBranch cond next = \<lparr>Condition = cond, BranchNextStep = next, Handler = []\<rparr>"

definition exEngine :: "StepConfig \<Rightarrow> FlowEngine" where
  "exEngine step =
     \<lparr>config = Some \<lparr>Flows = [''f'' \<mapsto> \<lparr>InitialStep = ''s1'', Steps = [''s1'' \<mapsto> step], TTL = 0\<rparr>]\<rparr>,
      stepHandlers = Map.empty, validators = Map.empty, conditionEvaluator = None\<rparr>"

definition exRouter :: "StepConfig \<Rightarrow> Router" where
  "exRouter step =
     \<lparr>flowEngine = exEngine step, callbackHandlers = (\<lambda>name. name = ''main_menu_internal''),
      stepDisplayFunc = True\<rparr>"

definition exConv :: Conversation where
  "exConv = NewConversation 0 5 7 0 ''f'' ''s1'' 10"

definition exWorld :: World where
  "exWorld =
     \<lparr>heap = (\<lambda>a. exConv), nextAddr = 1,
      mgr = \<lparr>conversations = [conversationKey 5 7 \<mapsto> 0], defaultTTL = 1800000000000,
             onStart = True, onEnd = True, onStepChange = True\<rparr>,
      trace = []\<rparr>"

definition exQuery :: CallbackQuery where
  "exQuery = \<lparr>QueryID = ''q1'', QueryFrom = 5, QueryChat = 7, QueryData = ''back''\<rparr>"

definition exMessage :: "string \<Rightarrow> Message" where
  "exMessage t = \<lparr>Text = t, From = 5, Chat = 7, MessageThreadID = 0, MessageID = 42\<rparr>"

text \<open>
  A custom validator that calls \<open>conv.Set("seen", value)\<close> (at the instant 3) and then
  rejects, registered under the name \<open>mark\<close>, and a router whose current step has the
  custom rule \<open>mark\<close>.
\<close>

definition exMarkingValidator :: "string \<Rightarrow> addr \<Rightarrow> World \<Rightarrow> World \<times> string option" where
  "exMarkingValidator input conv w =
     (updConv conv (Conversation_Set ''seen'' (StringVal input) 3) w, Some ''rejected'')"

definition exCustomStep :: StepConfig where
  "exCustomStep = exStep (Some ((exRule ''custom'')\<lparr>Custom := ''mark''\<rparr>)) []"

definition exCustomRouter :: Router where
  "exCustomRouter =
     \<lparr>flowEngine = (exEngine exCustomStep)\<lparr>validators := [''mark'' \<mapsto> exMarkingValidator]\<rparr>,
      callbackHandlers = (\<lambda>name. False), stepDisplayFunc = True\<rparr>"

definition exData :: Conversation where
  "exData = exConv\<lparr>Data := [''color'' \<mapsto> StringVal ''red'', ''n'' \<mapsto> IntVal 5, ''k'' \<mapsto> StringVal ''x'']\<rparr>"

section \<open>Results\<close>

subsection \<open>Auxiliary facts\<close>

lemma GetStep_exEngine:
  "GetStep (exEngine step\<lparr>conditionEvaluator := ev\<rparr>) (FlowID exConv) (StepID exConv) = Some step"
  by (simp add: GetStep_def GetFlow_def exEngine_def exConv_def NewConversation_def
      Config_GetFlow_def FlowConfig_GetStep_def)

lemma GetStep_exEngine': "GetStep (exEngine step) (FlowID exConv) (StepID exConv) = Some step"
  by (simp add: GetStep_def GetFlow_def exEngine_def exConv_def NewConversation_def
      Config_GetFlow_def FlowConfig_GetStep_def)

lemma exKey: "conversationKey 5 7 = [CHR 0x05, CHR 0x3A, CHR 0x07]"
  by (simp add: conversationKey_def runeString_def rune_def encodeRune_def byte_def)

lemma HasPrefix_iff_take: "HasPrefix s p \<longleftrightarrow> take (length p) s = p"
  by (auto simp: HasPrefix_def) (metis length_take min.cobounded1)

lemma branchLoop_find:
  "branchLoop e conv input bs d =
     (case find (\<lambda>b. evaluateBranchCondition e conv (Condition b) input) bs of
        Some b \<Rightarrow> BranchNextStep b | None \<Rightarrow> d)"
  by (induction bs) simp_all

lemma branchLoop_conditionEvaluator:
  "branchLoop (e\<lparr>conditionEvaluator := ev\<rparr>) conv input bs d = branchLoop e conv input bs d"
  by (induction bs) (simp_all add: evaluateBranchCondition_def)

lemma evaluateBranchCondition_input_a:
  "evaluateBranchCondition e conv (''input == '' @ dquote @ ''a'' @ dquote) ''a''"
  by (simp add: evaluateBranchCondition_def HasPrefix_def dquote_def Split.simps TrimSpace_def
      trimLeftSpace.simps trimRightSpace.simps spacePrefix_def spaceSuffix_def
      spaceEncodings_def encodeRune_def byte_def HasSuffix_def Trim_def quotes_def)

lemma parseHex_hex: "parseHex n s = Some m \<Longrightarrow> list_all isHexChar s"
proof (induction s arbitrary: n)
  case Nil
  then show ?case by simp
next
  case (Cons c cs)
  then obtain d where d: "hexDigit c = Some d"
    by (auto split: option.splits)
  have "isHexChar c"
    using d by (auto simp: hexDigit_def isHexChar_def HasPrefix_def split: option.splits if_splits)
  with Cons d show ?case
    by (auto split: if_splits)
qed

lemma checkHexChars_None: "checkHexChars s v = None \<longleftrightarrow> list_all isHexChar s"
  by (induction s) simp_all

lemma checkHexChars_Some:
  "checkHexChars s v = Some m \<Longrightarrow>
   m = getErrorMsg (ErrorMsg v) ''Please enter a valid Ethereum address''"
  by (induction s) (simp_all split: if_splits)

lemma validateAddress_None:
  "validateAddress input v = None \<longleftrightarrow>
     length input = 42 \<and> take 2 input = ''0x'' \<and> list_all isHexChar (drop 2 input)"
  by (auto simp: validateAddress_def HasPrefix_iff_take numeral_2_eq_2 ParseUint16_def
      checkHexChars_None dest: parseHex_hex split: option.splits if_splits)

lemma validateAddress_Some:
  "validateAddress input v = Some m \<Longrightarrow>
   m = getErrorMsg (ErrorMsg v) ''Please enter a valid Ethereum address''"
  by (auto simp: validateAddress_def dest: checkHexChars_Some split: option.splits if_splits)

lemma isHexChar_iff: "isHexChar c \<longleftrightarrow> c \<in> set ''0123456789abcdefABCDEF''"
  by (auto simp: isHexChar_def)

lemma End_absent: "conversations (mgr w) (conversationKey u c) = None \<Longrightarrow> End u c w = w"
  by (simp add: End_def)

lemma End_present:
  "conversations (mgr w) (conversationKey u c) = Some a \<Longrightarrow>
   End u c w =
     w\<lparr>mgr := (mgr w)\<lparr>conversations := (conversations (mgr w))(conversationKey u c := None)\<rparr>,
       trace := trace w @ (if onEnd (mgr w) then [OnEnd a] else [])\<rparr>"
  by (simp add: End_def setConversations_def emit_def)

lemma Get_absent:
  "conversations (mgr w) (conversationKey u c) = None \<Longrightarrow> Get now u c w = (None, w)"
  by (simp add: Get_def)

lemma Get_expired_eq:
  "conversations (mgr w) (conversationKey u c) = Some a \<Longrightarrow> ExpiresAt (heap w a) < now \<Longrightarrow>
   Get now u c w = (None, End u c w)"
  by (simp add: Get_def IsExpired_def)

lemma fold_Get_absent:
  "conversations (mgr w) (conversationKey u c) = None \<Longrightarrow>
   fold (\<lambda>t w. snd (Get t u c w)) ts w = w"
  by (induction ts) (simp_all add: Get_absent)

lemma Cleanup_loop_conversations:
  "conversations (mgr (snd (Cleanup_loop now keys n w))) k =
     (case conversations (mgr w) k of
        None \<Rightarrow> None
      | Some a \<Rightarrow> if k \<in> set keys \<and> ExpiresAt (heap w a) < now then None else Some a)"
proof (induction keys arbitrary: n w)
  case Nil
  then show ?case by (simp split: option.splits)
next
  case (Cons key keys)
  show ?case
    by (auto simp: Cons.IH setConversations_def emit_def IsExpired_def split: option.splits)
qed

lemma exWorld_stored: "conversations (mgr exWorld) (conversationKey 5 7) = Some 0"
  by (simp add: exWorld_def)

lemma exWorld_heap: "heap exWorld a = exConv"
  by (simp add: exWorld_def)

lemma GetStep_exWorld:
  "GetStep (exEngine step) (FlowID (heap exWorld a)) (StepID (heap exWorld a)) = Some step"
  by (simp add: exWorld_heap GetStep_exEngine')

lemma Split_none: "sep \<noteq> [] \<Longrightarrow> Index s sep = None \<Longrightarrow> Split s sep = [s]"
  by (simp add: Split.simps)

lemma Split_once:
  "sep \<noteq> [] \<Longrightarrow> Index (l @ sep @ r) sep = Some (length l) \<Longrightarrow> Index r sep = None \<Longrightarrow>
   Split (l @ sep @ r) sep = [l, r]"
  by (subst Split.simps) (simp add: Split_none)

lemma simpleEvaluate_empty: "simpleEvaluate conv []"
  by (simp add: simpleEvaluate_def Split_none)

lemmas eval_strings =
  HasPrefix_def HasSuffix_def TrimPrefix_def TrimSpace_def trimLeftSpace.simps
  trimRightSpace.simps spacePrefix_def spaceSuffix_def spaceEncodings_def encodeRune_def
  byte_def Trim_def quotes_def dquote_def

lemma spaceEncodings_bytes:
  "spaceEncodings =
     [[CHR 0x09], [CHR 0x0A], [CHR 0x0B], [CHR 0x0C], [CHR 0x0D], [CHR 0x20],
      [CHR 0xC2, CHR 0x85], [CHR 0xC2, CHR 0xA0], [CHR 0xE1, CHR 0x9A, CHR 0x80],
      [CHR 0xE2, CHR 0x80, CHR 0x80], [CHR 0xE2, CHR 0x80, CHR 0x81],
      [CHR 0xE2, CHR 0x80, CHR 0x82], [CHR 0xE2, CHR 0x80, CHR 0x83],
      [CHR 0xE2, CHR 0x80, CHR 0x84], [CHR 0xE2, CHR 0x80, CHR 0x85],
      [CHR 0xE2, CHR 0x80, CHR 0x86], [CHR 0xE2, CHR 0x80, CHR 0x87],
      [CHR 0xE2, CHR 0x80, CHR 0x88], [CHR 0xE2, CHR 0x80, CHR 0x89],
      [CHR 0xE2, CHR 0x80, CHR 0x8A], [CHR 0xE2, CHR 0x80, CHR 0xA8],
      [CHR 0xE2, CHR 0x80, CHR 0xA9], [CHR 0xE2, CHR 0x80, CHR 0xAF],
      [CHR 0xE2, CHR 0x81, CHR 0x9F], [CHR 0xE3, CHR 0x80, CHR 0x80]]"
  by (simp add: spaceEncodings_def encodeRune_def byte_def)

lemma spaceEncodings_nonempty: "e \<in> set spaceEncodings \<Longrightarrow> e \<noteq> []"
  by (auto simp: spaceEncodings_bytes)

lemma spaceEncodings_last_space: "e \<in> set spaceEncodings \<Longrightarrow> last e = CHR 0x20 \<Longrightarrow> e = '' ''"
  by (auto simp: spaceEncodings_bytes)

lemma spaceEncodings_hd_quote: "e \<in> set spaceEncodings \<Longrightarrow> hd e \<noteq> CHR 0x22"
  by (auto simp: spaceEncodings_bytes)

lemma spaceEncodings_last_quote: "e \<in> set spaceEncodings \<Longrightarrow> last e \<noteq> CHR 0x22"
  by (auto simp: spaceEncodings_bytes)

lemma HasPrefix_append_space:
  assumes "k \<noteq> []" and "e \<in> set spaceEncodings"
  shows "HasPrefix (k @ '' '') e = HasPrefix k e"
proof (cases "length e \<le> length k")
  case True
  then show ?thesis by (simp add: HasPrefix_def)
next
  case False
  then have nk: "\<not> HasPrefix k e"
    by (simp add: HasPrefix_def)
  have "\<not> HasPrefix (k @ '' '') e"
  proof
    assume h: "HasPrefix (k @ '' '') e"
    with False have "length e = Suc (length k)"
      by (simp add: HasPrefix_def)
    with h have "e = k @ '' ''"
      by (simp add: HasPrefix_def)
    then have "last e = CHR 0x20"
      by simp
    with assms(2) have "e = '' ''"
      by (rule spaceEncodings_last_space)
    with \<open>e = k @ '' ''\<close> assms(1) show False
      by simp
  qed
  with nk show ?thesis by simp
qed

lemma spacePrefix_append_space: "k \<noteq> [] \<Longrightarrow> spacePrefix (k @ '' '') = spacePrefix k"
  unfolding spacePrefix_def
  by (simp add: HasPrefix_append_space cong: find_cong)

lemma trimLeftSpace_Nil: "trimLeftSpace [] = []"
  by (simp add: trimLeftSpace.simps spacePrefix_def HasPrefix_def spaceEncodings_bytes)

lemma trimRightSpace_Nil: "trimRightSpace [] = []"
  by (simp add: trimRightSpace.simps spaceSuffix_def HasSuffix_def spaceEncodings_bytes)

lemma spacePrefix_space: "spacePrefix (CHR 0x20 # s) = 1"
  by (simp add: spacePrefix_def HasPrefix_def spaceEncodings_bytes)

lemma spaceSuffix_space: "spaceSuffix (s @ '' '') = 1"
  by (simp add: spaceSuffix_def HasSuffix_def spaceEncodings_bytes)

lemma trimLeftSpace_append_space:
  "trimLeftSpace (k @ '' '') = (if trimLeftSpace k = [] then [] else trimLeftSpace k @ '' '')"
proof (induction k rule: trimLeftSpace.induct)
  case (1 s)
  show ?case
  proof (cases "spacePrefix s = 0")
    case True
    then have t: "trimLeftSpace s = s"
      by (simp add: trimLeftSpace.simps)
    show ?thesis
    proof (cases "s = []")
      case True
      have "trimLeftSpace '' '' = trimLeftSpace []"
        by (subst trimLeftSpace.simps) (simp add: spacePrefix_space)
      with True show ?thesis
        by (simp add: trimLeftSpace_Nil)
    next
      case False
      with \<open>spacePrefix s = 0\<close> have "spacePrefix (s @ '' '') = 0"
        by (simp add: spacePrefix_append_space)
      then have "trimLeftSpace (s @ '' '') = s @ '' ''"
        by (simp add: trimLeftSpace.simps)
      with t False show ?thesis by simp
    qed
  next
    case False
    then have ne: "s \<noteq> []"
      using spacePrefix_le [of s] by auto
    have p: "spacePrefix (s @ '' '') = spacePrefix s"
      using ne by (rule spacePrefix_append_space)
    have d: "drop (spacePrefix s) (s @ '' '') = drop (spacePrefix s) s @ '' ''"
      using spacePrefix_le [of s] by simp
    have "trimLeftSpace (s @ '' '') = trimLeftSpace (drop (spacePrefix s) (s @ '' ''))"
      using False by (subst trimLeftSpace.simps) (simp only: p if_False)
    also have "\<dots> = trimLeftSpace (drop (spacePrefix s) s @ '' '')"
      by (simp only: d)
    also have "\<dots> = (if trimLeftSpace (drop (spacePrefix s) s) = [] then []
                       else trimLeftSpace (drop (spacePrefix s) s) @ '' '')"
      using False by (rule "1.IH")
    also have "trimLeftSpace (drop (spacePrefix s) s) = trimLeftSpace s"
      using False by (subst (2) trimLeftSpace.simps) simp
    finally show ?thesis .
  qed
qed

lemma trimRightSpace_append_space: "trimRightSpace (x @ '' '') = trimRightSpace x"
  by (subst trimRightSpace.simps) (simp add: spaceSuffix_space)

lemma TrimSpace_append_space: "TrimSpace (k @ '' '') = TrimSpace k"
  by (simp add: TrimSpace_def trimLeftSpace_append_space trimRightSpace_append_space
      trimRightSpace_Nil)

lemma HasPrefix_hd: "HasPrefix s e \<Longrightarrow> e \<noteq> [] \<Longrightarrow> s \<noteq> [] \<and> hd s = hd e"
  by (cases s; cases e) (auto simp: HasPrefix_def)

lemma HasSuffix_last: "HasSuffix s e \<Longrightarrow> e \<noteq> [] \<Longrightarrow> s \<noteq> [] \<and> last s = last e"
  by (auto simp: HasSuffix_def) (metis last_drop drop_eq_Nil not_less)

lemma spacePrefix_quote: "spacePrefix (CHR 0x22 # s) = 0"
proof -
  have "\<not> HasPrefix (CHR 0x22 # s) e" if "e \<in> set spaceEncodings" for e
    using HasPrefix_hd [of "CHR 0x22 # s" e] spaceEncodings_nonempty [OF that]
      spaceEncodings_hd_quote [OF that] by auto
  then have "find (HasPrefix (CHR 0x22 # s)) spaceEncodings = None"
    by (simp add: find_None_iff)
  then show ?thesis
    by (simp add: spacePrefix_def)
qed

lemma spaceSuffix_quote: "spaceSuffix (s @ [CHR 0x22]) = 0"
proof -
  have "\<not> HasSuffix (s @ [CHR 0x22]) e" if "e \<in> set spaceEncodings" for e
    using HasSuffix_last [of "s @ [CHR 0x22]" e] spaceEncodings_nonempty [OF that]
      spaceEncodings_last_quote [OF that] by auto
  then have "find (HasSuffix (s @ [CHR 0x22])) spaceEncodings = None"
    by (simp add: find_None_iff)
  then show ?thesis
    by (simp add: spaceSuffix_def)
qed

lemma TrimSpace_quoted: "TrimSpace ('' '' @ dquote @ v @ dquote) = dquote @ v @ dquote"
proof -
  have "trimLeftSpace ('' '' @ dquote @ v @ dquote) = trimLeftSpace (dquote @ v @ dquote)"
    by (subst trimLeftSpace.simps) (simp add: spacePrefix_space)
  also have "\<dots> = dquote @ v @ dquote"
    by (subst trimLeftSpace.simps) (simp add: dquote_def spacePrefix_quote)
  finally have l: "trimLeftSpace ('' '' @ dquote @ v @ dquote) = dquote @ v @ dquote" .
  have "spaceSuffix ((dquote @ v) @ [CHR 0x22]) = 0"
    by (rule spaceSuffix_quote)
  then have "trimRightSpace (dquote @ v @ dquote) = dquote @ v @ dquote"
    by (subst trimRightSpace.simps) (simp add: dquote_def)
  with l show ?thesis
    by (simp add: TrimSpace_def)
qed

lemma Trim_quoted: "Trim (dquote @ v @ dquote) quotes = Trim v quotes"
proof (cases "\<forall>c\<in>set v. c \<in> set quotes")
  case True
  then have a: "dropWhile (\<lambda>c. c \<in> set quotes) v = []"
    by simp
  have "\<forall>c\<in>set (dquote @ v @ dquote). c \<in> set quotes"
    using True by (auto simp: dquote_def quotes_def)
  then have b: "dropWhile (\<lambda>c. c \<in> set quotes) (dquote @ v @ dquote) = []"
    by (simp only: dropWhile_eq_Nil_conv)
  show ?thesis
    unfolding Trim_def a b by simp
next
  case False
  then have "dropWhile (\<lambda>c. c \<in> set quotes) (v @ dquote)
               = dropWhile (\<lambda>c. c \<in> set quotes) v @ dquote"
    by (auto simp: dropWhile_append1)
  then show ?thesis
    by (simp add: Trim_def dquote_def quotes_def)
qed

lemma Index_absent: "CHR ''='' \<notin> set s \<Longrightarrow> Index s ''=='' = None"
  by (induction s) (auto simp: HasPrefix_def)

lemma take1_mem: "take (Suc 0) s = [c] \<Longrightarrow> c \<in> set s"
  by (cases s) auto

lemma Index_absent_ne: "CHR ''='' \<notin> set s \<Longrightarrow> Index s ''!='' = None"
  by (induction s) (auto simp: HasPrefix_def dest: take1_mem)

lemma Index_eq_at: "CHR ''='' \<notin> set l \<Longrightarrow> Index (l @ ''=='' @ r) ''=='' = Some (length l)"
  by (induction l) (auto simp: HasPrefix_def)

lemma Index_ne_at: "CHR ''='' \<notin> set l \<Longrightarrow> Index (l @ ''!='' @ r) ''!='' = Some (length l)"
proof (induction l)
  case Nil
  then show ?case by (simp add: HasPrefix_def)
next
  case (Cons a l)
  have "\<not> HasPrefix (a # l @ ''!='' @ r) ''!=''"
    using Cons.prems by (cases l) (auto simp: HasPrefix_def)
  with Cons show ?case by simp
qed

lemma Index_eq_in_ne:
  "CHR ''='' \<notin> set l \<Longrightarrow> CHR ''='' \<notin> set r \<Longrightarrow> Index (l @ ''!='' @ r) ''=='' = None"
proof (induction l)
  case Nil
  then show ?case
    by (cases r) (auto simp: HasPrefix_def Index_absent)
next
  case (Cons a l)
  then show ?case by (auto simp: HasPrefix_def)
qed

lemma DetermineNextStep_conditionEvaluator:
  "DetermineNextStep (e\<lparr>conditionEvaluator := ev\<rparr>) conv input = DetermineNextStep e conv input"
  by (simp add: DetermineNextStep_def GetStep_def GetFlow_def branchLoop_conditionEvaluator
      split: option.splits)

subsection \<open>C1: the session key\<close>

text \<open>
  C1 says that two distinct (user, chat) pairs always get distinct keys, so that an
  operation on one pair never reaches the session of another. The source's comment on
  \<open>conversationKey\<close> promises the same ("generates a unique key"), but \<open>string(rune(id))\<close>
  is the one-character string of the code point \<open>id\<close>, and every id that is no valid code
  point (above \<open>0x10FFFF\<close> after truncation to 32 bits, or negative as the chat ids of
  groups are) becomes the replacement character. The theorem evaluates the code: users
  123456789 and 987654321, in the chats -1001234567890 and -1009876543210, share one key,
  and after \<open>Start\<close> for the first pair, \<open>Get\<close> for the second pair returns the session
  of the first.
\<close>

theorem conversationKey_collision:
  "conversationKey 123456789 (- 1001234567890) = conversationKey 987654321 (- 1009876543210)
   \<and> fst (Get 1 987654321 (- 1009876543210)
           (snd (Start 0 123456789 (- 1001234567890) 0 ''f'' ''s1'' 100 w)))
       = Some (fst (Start 0 123456789 (- 1001234567890) 0 ''f'' ''s1'' 100 w))"
proof -
  have k: "conversationKey 123456789 (- 1001234567890)
             = conversationKey 987654321 (- 1009876543210)"
    by (simp add: conversationKey_def runeString_def rune_def encodeRune_def byte_def)
  show ?thesis
    by (simp add: k Get_def Start_def Start_install_def Start_notify_def Start_endExisting_def
        alloc_def setConversations_def emit_def IsExpired_def NewConversation_def
        split: option.splits)
qed

subsection \<open>C2: branch conditions and the custom evaluator\<close>

text \<open>
  C2 says that \<open>DetermineNextStep\<close> evaluates a branch condition that is not an
  \<open>input == "literal"\<close> comparison through the general condition evaluator, which
  prefers a registered custom evaluator. \<open>EvaluateCondition\<close> does prefer it, but
  \<open>evaluateBranchCondition\<close> calls \<open>simpleEvaluate\<close>, the built-in evaluator, under the
  comment "Use general condition evaluation". The theorem evaluates the code with a custom
  evaluator that rejects every condition and the branch \<open>custom:vip\<close> to \<open>s2\<close>: the general
  evaluator says false, and \<open>DetermineNextStep\<close> takes the branch all the same (the
  built-in evaluator is true on a condition it does not parse).
\<close>

theorem DetermineNextStep_skips_custom_evaluator:
  "EvaluateCondition
     (exEngine (exStep None [exBranch ''custom:vip'' ''s2''])
        \<lparr>conditionEvaluator := Some (\<lambda>conv condition. False)\<rparr>) exConv ''custom:vip'' = False
   \<and> DetermineNextStep
     (exEngine (exStep None [exBranch ''custom:vip'' ''s2''])
        \<lparr>conditionEvaluator := Some (\<lambda>conv condition. False)\<rparr>) exConv ''x'' = ''s2''"
  by (simp add: EvaluateCondition_def DetermineNextStep_def GetStep_exEngine)
     (simp add: exStep_def exBranch_def evaluateBranchCondition_def simpleEvaluate_def
        Split.simps HasPrefix_def)

subsection \<open>C6: the first matching branch wins\<close>

text \<open>
  C6: when the current step exists, \<open>DetermineNextStep\<close> returns the target of the first
  branch, in declared order, whose condition holds (as \<open>evaluateBranchCondition\<close> decides
  it), and the step's own next step when no branch matches. With the branches
  \<open>input == "a"\<close> to \<open>s2\<close> and \<open>input == "b"\<close> to \<open>s3\<close> and the input \<open>a\<close>, the result is \<open>s2\<close>
  whatever the step's default next step is.
\<close>

theorem DetermineNextStep_first_match:
  assumes "GetStep e (FlowID conv) (StepID conv) = Some step"
  shows "DetermineNextStep e conv input =
           (case find (\<lambda>b. evaluateBranchCondition e conv (Condition b) input) (Branches step) of
              Some b \<Rightarrow> BranchNextStep b
            | None \<Rightarrow> NextStep step)
         \<and> (map Condition (Branches step)
               = [''input == '' @ dquote @ ''a'' @ dquote, ''input == '' @ dquote @ ''b'' @ dquote]
             \<and> map BranchNextStep (Branches step) = [''s2'', ''s3'']
             \<longrightarrow> DetermineNextStep e conv ''a'' = ''s2'')"
  using assms evaluateBranchCondition_input_a [of e conv]
  by (auto simp: DetermineNextStep_def branchLoop_find map_eq_Cons_conv)

theorem DetermineNextStep_first_match_witness:
  "DetermineNextStep
     (exEngine (exStep None [exBranch (''input == '' @ dquote @ ''a'' @ dquote) ''s2'',
                             exBranch (''input == '' @ dquote @ ''b'' @ dquote) ''s3'']))
     exConv ''a'' = ''s2''"
proof -
  let ?step = "exStep None [exBranch (''input == '' @ dquote @ ''a'' @ dquote) ''s2'',
                            exBranch (''input == '' @ dquote @ ''b'' @ dquote) ''s3'']"
  have s: "GetStep (exEngine ?step) (FlowID exConv) (StepID exConv) = Some ?step"
    by (rule GetStep_exEngine')
  have b: "map Condition (Branches ?step)
             = [''input == '' @ dquote @ ''a'' @ dquote, ''input == '' @ dquote @ ''b'' @ dquote]
           \<and> map BranchNextStep (Branches ?step) = [''s2'', ''s3'']"
    by (simp add: exStep_def exBranch_def)
  from DetermineNextStep_first_match [OF s, THEN conjunct2, rule_format, OF b]
  show ?thesis .
qed

subsection \<open>C8: address validation\<close>

text \<open>
  C8: under a rule of type \<open>address\<close>, \<open>ValidateInput\<close> accepts an input exactly when it is
  42 bytes long, starts with \<open>0x\<close> and continues with hexadecimal digits of either case
  only. A rejection carries a non-empty message: the rule's own message if it has one, the
  default otherwise. \<open>0x123\<close> and a 42-byte input with a \<open>g\<close> are rejected, \<open>0x\<close> followed by
  forty \<open>a\<close> is accepted. The rule leaves the world as it is.
\<close>

theorem ValidateInput_address:
  assumes "GetStep e (FlowID (heap w conv)) (StepID (heap w conv)) = Some step"
    and "Validation step = Some v"
    and "Type v = ''address''"
  shows "fst (ValidateInput lib e conv input w) = w
         \<and> (snd (ValidateInput lib e conv input w) = None \<longleftrightarrow>
            length input = 42 \<and> take 2 input = ''0x''
            \<and> set (drop 2 input) \<subseteq> set ''0123456789abcdefABCDEF'')
         \<and> (\<forall>msg. snd (ValidateInput lib e conv input w) = Some msg \<longrightarrow>
               msg \<noteq> [] \<and>
               msg = (if ErrorMsg v \<noteq> [] then ErrorMsg v
                      else ''Please enter a valid Ethereum address''))
         \<and> snd (ValidateInput lib e conv ''0x123'' w) \<noteq> None
         \<and> snd (ValidateInput lib e conv (''0x'' @ replicate 39 (CHR ''a'') @ ''g'') w) \<noteq> None
         \<and> snd (ValidateInput lib e conv (''0x'' @ replicate 40 (CHR ''a'')) w) = None"
proof -
  have v: "ValidateInput lib e conv x w = (w, validateAddress x v)" for x
    using assms by (simp add: ValidateInput_def)
  have hex: "list_all isHexChar s \<longleftrightarrow> set s \<subseteq> set ''0123456789abcdefABCDEF''" for s
    unfolding list_all_iff isHexChar_iff by blast
  have 1: "validateAddress input v = None \<longleftrightarrow>
            length input = 42 \<and> take 2 input = ''0x''
            \<and> set (drop 2 input) \<subseteq> set ''0123456789abcdefABCDEF''"
    by (simp only: validateAddress_None hex)
  have 2: "msg \<noteq> [] \<and> msg = (if ErrorMsg v \<noteq> [] then ErrorMsg v
                      else ''Please enter a valid Ethereum address'')"
    if "validateAddress input v = Some msg" for msg
    using validateAddress_Some [OF that] by (simp add: getErrorMsg_def)
  have 3: "validateAddress ''0x123'' v \<noteq> None"
    by (simp add: validateAddress_None)
  have 4: "validateAddress (''0x'' @ replicate 39 (CHR ''a'') @ ''g'') v \<noteq> None"
    by (simp add: validateAddress_None isHexChar_def)
  have 5: "validateAddress (''0x'' @ replicate 40 (CHR ''a'')) v = None"
    by (simp add: validateAddress_None isHexChar_def list_all_iff)
  show ?thesis
    unfolding v fst_conv snd_conv using 1 2 3 4 5 by blast
qed

theorem ValidateInput_address_witness:
  "ValidateInput exLib (exEngine (exStep (Some (exRule ''address'')) [])) 0
     ''0x52908400098527886E0F7030069857D2E4169EE7'' exWorld = (exWorld, None)
   \<and> ValidateInput exLib (exEngine (exStep (Some (exRule ''address'')) [])) 0
     ''0x52908400098527886E0F7030069857D2E4169EEZ'' exWorld
       = (exWorld, Some ''Please enter a valid Ethereum address'')"
proof -
  let ?e = "exEngine (exStep (Some (exRule ''address'')) [])"
  let ?good = "''0x52908400098527886E0F7030069857D2E4169EE7''"
  let ?bad = "''0x52908400098527886E0F7030069857D2E4169EEZ''"
  have s: "GetStep ?e (FlowID (heap exWorld 0)) (StepID (heap exWorld 0))
          = Some (exStep (Some (exRule ''address'')) [])"
    by (rule GetStep_exWorld)
  have v: "Validation (exStep (Some (exRule ''address'')) []) = Some (exRule ''address'')"
    by (simp add: exStep_def)
  have t: "Type (exRule ''address'') = ''address''"
    by (simp add: exRule_def)
  have e: "ErrorMsg (exRule ''address'') = []"
    by (simp add: exRule_def)
  have g: "length ?good = 42 \<and> take 2 ?good = ''0x''
           \<and> set (drop 2 ?good) \<subseteq> set ''0123456789abcdefABCDEF''"
    by simp
  have b: "\<not> (length ?bad = 42 \<and> take 2 ?bad = ''0x''
           \<and> set (drop 2 ?bad) \<subseteq> set ''0123456789abcdefABCDEF'')"
    by simp
  note good = ValidateInput_address [OF s v t, of exLib ?good]
  note bad = ValidateInput_address [OF s v t, of exLib ?bad]
  have g1: "fst (ValidateInput exLib ?e 0 ?good exWorld) = exWorld"
    and g2: "snd (ValidateInput exLib ?e 0 ?good exWorld) = None"
    using good g by blast+
  have b1: "fst (ValidateInput exLib ?e 0 ?bad exWorld) = exWorld"
    using bad by blast
  have "snd (ValidateInput exLib ?e 0 ?bad exWorld) \<noteq> None"
    using bad b by blast
  then obtain msg where m: "snd (ValidateInput exLib ?e 0 ?bad exWorld) = Some msg"
    by auto
  with bad have "msg = (if ErrorMsg (exRule ''address'') \<noteq> [] then ErrorMsg (exRule ''address'')
                      else ''Please enter a valid Ethereum address'')"
    by blast
  with m e have b2: "snd (ValidateInput exLib ?e 0 ?bad exWorld)
                       = Some ''Please enter a valid Ethereum address''"
    by simp
  show ?thesis
    using g1 g2 b1 b2 by (simp add: prod_eq_iff)
qed

subsection \<open>C10: validation types the engine does not know\<close>

text \<open>
  C10: a rule whose type is none of \<open>number\<close>, \<open>address\<close>, \<open>email\<close>, \<open>regex\<close> and \<open>custom\<close>
  accepts every input (and leaves the world as it is); so does the type \<open>required\<close> that
  the configuration's comment lists; and the result is the one of the same step without a
  validation rule.
\<close>

theorem ValidateInput_unknown_type:
  assumes "GetStep e (FlowID (heap w conv)) (StepID (heap w conv)) = Some step"
    and "Validation step = Some v"
  shows "(Type v \<notin> {''number'', ''address'', ''email'', ''regex'', ''custom''} \<longrightarrow>
            ValidateInput lib e conv input w = (w, None))
         \<and> (Type v = ''required'' \<longrightarrow> ValidateInput lib e conv input w = (w, None))
         \<and> (Type v \<notin> {''number'', ''address'', ''email'', ''regex'', ''custom''}
             \<and> GetStep e' (FlowID (heap w conv)) (StepID (heap w conv))
                 = Some (step\<lparr>Validation := None\<rparr>) \<longrightarrow>
            ValidateInput lib e conv input w = ValidateInput lib e' conv input w)"
  using assms by (simp add: ValidateInput_def)

theorem ValidateInput_unknown_type_witness:
  "ValidateInput exLib (exEngine (exStep (Some (exRule ''required'')) [])) 0 [] exWorld
     = (exWorld, None)
   \<and> ValidateInput exLib (exEngine (exStep (Some (exRule ''required'')) [])) 0 [] exWorld
       = ValidateInput exLib (exEngine (exStep None [])) 0 [] exWorld"
proof -
  let ?step = "exStep (Some (exRule ''required'')) []"
  have s: "GetStep (exEngine ?step) (FlowID (heap exWorld 0)) (StepID (heap exWorld 0)) = Some ?step"
    by (rule GetStep_exWorld)
  have v: "Validation ?step = Some (exRule ''required'')"
    by (simp add: exStep_def)
  have t: "Type (exRule ''required'') = ''required''"
    by (simp add: exRule_def)
  have s': "GetStep (exEngine (exStep None [])) (FlowID (heap exWorld 0)) (StepID (heap exWorld 0))
              = Some (?step\<lparr>Validation := None\<rparr>)"
    by (simp add: GetStep_exWorld exStep_def)
  have n: "Type (exRule ''required'') \<notin> {''number'', ''address'', ''email'', ''regex'', ''custom''}"
    by (simp add: exRule_def)
  from ValidateInput_unknown_type [OF s v, of exLib "[]" "exEngine (exStep None [])"] t n s'
  show ?thesis
    by blast
qed

subsection \<open>C3: expiry on read\<close>

text \<open>
  C3: for a stored session whose \<open>ExpiresAt\<close> lies strictly before \<open>now\<close>, \<open>Get\<close> returns
  none and removes the session from the map, and the end hook (when one is set) is called
  once, on that session: the trace grows by the one event \<open>OnEnd conv\<close>, and every later
  \<open>Get\<close> for the key returns none and changes nothing. \<open>Get\<close> and the sweep \<open>Cleanup\<close>
  decide by the same predicate: at any instant \<open>t\<close>, \<open>Get\<close> returns none for the stored
  session exactly when \<open>ExpiresAt < t\<close>, and \<open>Cleanup\<close> (whatever the order of its
  iteration) removes it exactly then. The model is sequential: the calls of \<open>Get\<close> follow
  one another.
\<close>

theorem Get_expired:
  assumes "conversations (mgr w) (conversationKey userID chatID) = Some conv"
    and "ExpiresAt (heap w conv) < now"
  shows "fst (Get now userID chatID w) = None
         \<and> conversations (mgr (snd (Get now userID chatID w))) (conversationKey userID chatID) = None
         \<and> trace (snd (Get now userID chatID w))
             = trace w @ (if onEnd (mgr w) then [OnEnd conv] else [])
         \<and> (\<forall>t. Get t userID chatID (snd (Get now userID chatID w))
                  = (None, snd (Get now userID chatID w)))
         \<and> (\<forall>t. (fst (Get t userID chatID w) = None) = (ExpiresAt (heap w conv) < t))
         \<and> (\<forall>t keys. conversationKey userID chatID \<in> set keys \<longrightarrow>
               (conversations (mgr (snd (Cleanup t keys w))) (conversationKey userID chatID) = None)
                 = (ExpiresAt (heap w conv) < t))"
proof -
  note stored = assms(1)
  have g: "Get now userID chatID w = (None, End userID chatID w)"
    using assms by (rule Get_expired_eq)
  have gone: "conversations (mgr (End userID chatID w)) (conversationKey userID chatID) = None"
    by (simp add: End_present [OF stored])
  have tr: "trace (End userID chatID w) = trace w @ (if onEnd (mgr w) then [OnEnd conv] else [])"
    by (simp add: End_present [OF stored])
  have again: "Get t userID chatID (End userID chatID w) = (None, End userID chatID w)" for t
    using gone by (rule Get_absent)
  have lazy: "(fst (Get t userID chatID w) = None) = (ExpiresAt (heap w conv) < t)" for t
    using stored by (simp add: Get_def IsExpired_def)
  have sweep: "(conversations (mgr (snd (Cleanup t keys w))) (conversationKey userID chatID) = None)
                 = (ExpiresAt (heap w conv) < t)"
    if "conversationKey userID chatID \<in> set keys" for t keys
    using stored that by (simp add: Cleanup_def Cleanup_loop_conversations)
  show ?thesis
    unfolding g using gone tr again lazy sweep by simp
qed

theorem Get_expired_witness:
  "fst (Get 11 5 7 exWorld) = None
   \<and> trace (snd (Get 11 5 7 exWorld)) = [OnEnd 0]
   \<and> Get 12 5 7 (snd (Get 11 5 7 exWorld)) = (None, snd (Get 11 5 7 exWorld))
   \<and> conversations (mgr (snd (Cleanup 11 [conversationKey 5 7] exWorld))) (conversationKey 5 7) = None"
proof -
  have e: "ExpiresAt (heap exWorld 0) < 11"
    by (simp add: exWorld_def exConv_def NewConversation_def)
  have h: "onEnd (mgr exWorld)" "trace exWorld = []"
    by (simp_all add: exWorld_def)
  have k: "conversationKey 5 7 \<in> set [conversationKey 5 7]"
    by simp
  from Get_expired [OF exWorld_stored e] h k e show ?thesis
    by simp
qed

subsection \<open>C4: starting over an existing session\<close>



subsection \<open>C5: a rejected input\<close>

text \<open>
  C5 says that a rejected input leaves the session unchanged. The router hands the session
  pointer to \<open>ValidateInput\<close>, which hands it to a custom validator
  (\<open>validator(input, conv)\<close>), and the session is then what the validator left. With the
  validator \<open>mark\<close>, which sets the data key \<open>seen\<close> and rejects, the message \<open>hello\<close> is
  rejected and the session has the new data key \<open>seen\<close> afterwards.
\<close>

theorem handleConversationMessage_validator_writes:
  "snd (ValidateInput exLib (flowEngine exCustomRouter) 0 (Text (exMessage ''hello'')) exWorld)
     = Some ''rejected''
   \<and> Data (heap exWorld 0) ''seen'' = None
   \<and> Data (heap (handleConversationMessage exLib exCustomRouter 3 (exMessage ''hello'') 0 exWorld) 0)
        ''seen'' = Some (StringVal ''hello'')"
proof -
  have s: "GetStep (flowEngine exCustomRouter) (FlowID (heap exWorld 0)) (StepID (heap exWorld 0))
             = Some exCustomStep"
    by (simp add: exCustomRouter_def exWorld_heap GetStep_def GetFlow_def exEngine_def exConv_def
        NewConversation_def Config_GetFlow_def FlowConfig_GetStep_def)
  have t: "Text (exMessage ''hello'') = ''hello''"
    by (simp add: exMessage_def)
  have v: "ValidateInput exLib (flowEngine exCustomRouter) 0 ''hello'' exWorld
             = exMarkingValidator ''hello'' 0 exWorld"
    by (simp add: ValidateInput_def s)
       (simp add: exCustomStep_def exStep_def exRule_def validateCustom_def exCustomRouter_def)
  have i: "InputType exCustomStep = InputTypeText"
    by (simp add: exCustomStep_def exStep_def InputTypeText_def)
  have d: "Data (heap exWorld 0) ''seen'' = None"
    by (simp add: exWorld_def exConv_def NewConversation_def)
  have h: "handleConversationMessage exLib exCustomRouter 3 (exMessage ''hello'') 0 exWorld
             = emit (SendMessage 7 0 (crossMark @ ''rejected''))
                 (updConv 0 (Conversation_Set ''seen'' (StringVal ''hello'') 3) exWorld)"
    by (simp add: handleConversationMessage_def s i v exMarkingValidator_def exMessage_def)
  show ?thesis
    by (simp add: t v h d exMarkingValidator_def emit_def updConv_def Conversation_Set_def)
qed

text \<open>
  C5 as amended: when \<open>ValidateInput\<close> rejects the text of a message with the message
  \<open>err\<close>, leaving the world \<open>w'\<close>, and the current step accepts text (input type \<open>text\<close> or
  \<open>any\<close>), all that \<open>handleConversationMessage\<close> does after the validation is to send the
  cross mark followed by \<open>err\<close> to the chat: the router stores no data key, appends no
  history entry and does not advance the step, and the session is as the validation left
  it. The validation leaves the world as it was under every rule that is not a custom one
  (and under a custom validator that does not write), and then every session and the
  manager are unchanged. A step that does not accept text drops the message and changes
  nothing.
\<close>

theorem handleConversationMessage_rejected:
  assumes "GetStep (flowEngine r) (FlowID (heap w c)) (StepID (heap w c)) = Some step"
    and "ValidateInput lib (flowEngine r) c (Text msg) w = (w', Some err)"
  shows "(InputType step = InputTypeText \<or> InputType step = InputTypeAny \<longrightarrow>
            handleConversationMessage lib r now msg c w
              = w'\<lparr>trace := trace w' @
                     [SendMessage (Chat msg) (MessageThreadID msg) (crossMark @ err)]\<rparr>)
         \<and> (\<not> (InputType step = InputTypeText \<or> InputType step = InputTypeAny) \<longrightarrow>
            handleConversationMessage lib r now msg c w = w)
         \<and> (\<forall>v. Validation step = Some v \<and> Type v \<noteq> ''custom'' \<longrightarrow> w' = w)
         \<and> (w' = w \<longrightarrow>
              heap (handleConversationMessage lib r now msg c w) = heap w
              \<and> mgr (handleConversationMessage lib r now msg c w) = mgr w)"
proof -
  have 1: "handleConversationMessage lib r now msg c w
              = w'\<lparr>trace := trace w' @
                     [SendMessage (Chat msg) (MessageThreadID msg) (crossMark @ err)]\<rparr>"
    if "InputType step = InputTypeText \<or> InputType step = InputTypeAny"
    using assms that by (auto simp add: handleConversationMessage_def emit_def)
  have 2: "handleConversationMessage lib r now msg c w = w"
    if "\<not> (InputType step = InputTypeText \<or> InputType step = InputTypeAny)"
    using assms(1) that by (simp add: handleConversationMessage_def)
  have 3: "w' = w" if "Validation step = Some v" and "Type v \<noteq> ''custom''" for v
    using assms that by (auto simp add: ValidateInput_def split: if_splits)
  have 4: "heap (handleConversationMessage lib r now msg c w) = heap w
           \<and> mgr (handleConversationMessage lib r now msg c w) = mgr w" if "w' = w"
  proof (cases "InputType step = InputTypeText \<or> InputType step = InputTypeAny")
    case True
    from 1 [OF True] that show ?thesis by simp
  next
    case False
    from 2 [OF False] show ?thesis by simp
  qed
  show ?thesis
    using 1 2 3 4 by blast
qed

theorem handleConversationMessage_rejected_witness:
  "handleConversationMessage exLib (exRouter (exStep (Some (exRule ''address'')) [])) 3
     (exMessage ''0x123'') 0 exWorld
   = exWorld\<lparr>trace := [SendMessage 7 0 (crossMark @ ''Please enter a valid Ethereum address'')]\<rparr>
   \<and> heap (handleConversationMessage exLib (exRouter (exStep (Some (exRule ''address'')) [])) 3
       (exMessage ''0x123'') 0 exWorld) = heap exWorld"
proof -
  let ?step = "exStep (Some (exRule ''address'')) []"
  have s: "GetStep (flowEngine (exRouter ?step)) (FlowID (heap exWorld 0)) (StepID (heap exWorld 0))
             = Some ?step"
    by (simp add: exRouter_def GetStep_exWorld)
  have v: "ValidateInput exLib (flowEngine (exRouter ?step)) 0 (Text (exMessage ''0x123'')) exWorld
             = (exWorld, Some ''Please enter a valid Ethereum address'')"
    by (simp add: ValidateInput_def exRouter_def GetStep_exWorld)
       (simp add: exStep_def exRule_def exMessage_def validateAddress_def getErrorMsg_def)
  have i: "InputType ?step = InputTypeText"
    by (simp add: exStep_def InputTypeText_def)
  have t: "Validation ?step = Some (exRule ''address'') \<and> Type (exRule ''address'') \<noteq> ''custom''"
    by (simp add: exStep_def exRule_def)
  note inst = handleConversationMessage_rejected [OF s v, of 3]
  have a: "handleConversationMessage exLib (exRouter ?step) 3 (exMessage ''0x123'') 0 exWorld
             = exWorld\<lparr>trace := trace exWorld @
                 [SendMessage (Chat (exMessage ''0x123'')) (MessageThreadID (exMessage ''0x123''))
                    (crossMark @ ''Please enter a valid Ethereum address'')]\<rparr>"
    using inst i by blast
  have b: "heap (handleConversationMessage exLib (exRouter ?step) 3 (exMessage ''0x123'') 0 exWorld)
             = heap exWorld"
    using inst t by blast
  from a b show ?thesis
    by (simp add: exMessage_def exWorld_def)
qed

subsection \<open>C7: the built-in condition evaluator\<close>

text \<open>
  C7 says that the built-in evaluator decides every condition of the form
  \<open>key == "value"\<close> by string equality with the stored data and is true on every other
  expression. It fails where the value contains the operator: \<open>simpleEvaluate\<close> recognises
  the form by \<open>len(strings.Split(condition, "==")) == 2\<close>, so \<open>k == "a==b"\<close> splits in three
  parts, is no comparison for the code, and is true although the stored value \<open>x\<close> of \<open>k\<close>
  differs from \<open>a==b\<close>.
\<close>

theorem simpleEvaluate_operator_in_value:
  "simpleEvaluate exData (''k == '' @ dquote @ ''a==b'' @ dquote)
   \<and> GetString exData ''k'' \<noteq> ''a==b''"
  by (simp add: simpleEvaluate_def Split.simps HasPrefix_def dquote_def GetString_def
      Conversation_Get_def exData_def)

text \<open>
  C7 as amended: the built-in evaluator is true on the empty condition. A condition in
  which \<open>==\<close> occurs exactly once (\<open>l == r\<close>, the first \<open>==\<close> being the one after \<open>l\<close> and
  \<open>r\<close> having none) is true exactly when the session's string for the key equals the
  value, where the key is \<open>l\<close> without surrounding white space and without a leading
  \<open>data.\<close>, and the value is \<open>r\<close> without surrounding white space and quote characters. A
  condition in which \<open>==\<close> does not occur exactly once and \<open>!=\<close> occurs exactly once is
  true exactly when the two differ. The session's string for a key is the stored value if
  that is a string, and the empty string if the key is absent or holds anything else: no
  number or boolean is converted. Every other condition is true, among them every
  condition without \<open>==\<close> and \<open>!=\<close>. In particular, for a key \<open>k\<close> and a value \<open>v\<close>
  without an equals sign, \<open>k == "v"\<close> compares the session's string for the trimmed
  \<open>k\<close> with \<open>v\<close> (without quote characters at its ends), and \<open>k != "v"\<close> is its negation.
\<close>

theorem simpleEvaluate_forms:
  "simpleEvaluate conv []
   \<and> (Index (l @ ''=='' @ r) ''=='' = Some (length l) \<and> Index r ''=='' = None \<longrightarrow>
        simpleEvaluate conv (l @ ''=='' @ r)
          = (GetString conv (TrimPrefix (TrimSpace l) ''data.'') = Trim (TrimSpace r) quotes))
   \<and> (length (Split (l' @ ''!='' @ r') ''=='') \<noteq> 2
       \<and> Index (l' @ ''!='' @ r') ''!='' = Some (length l') \<and> Index r' ''!='' = None \<longrightarrow>
        simpleEvaluate conv (l' @ ''!='' @ r')
          = (GetString conv (TrimPrefix (TrimSpace l') ''data.'') \<noteq> Trim (TrimSpace r') quotes))
   \<and> GetString conv key = (case Data conv key of Some (StringVal s) \<Rightarrow> s | _ \<Rightarrow> [])
   \<and> (length (Split cond ''=='') \<noteq> 2 \<and> length (Split cond ''!='') \<noteq> 2 \<longrightarrow>
        simpleEvaluate conv cond)
   \<and> (Index cond ''=='' = None \<and> Index cond ''!='' = None \<longrightarrow> simpleEvaluate conv cond)
   \<and> (CHR ''='' \<notin> set k \<and> CHR ''='' \<notin> set v \<longrightarrow>
        simpleEvaluate conv (k @ '' == '' @ dquote @ v @ dquote)
          = (GetString conv (TrimPrefix (TrimSpace k) ''data.'') = Trim v quotes)
        \<and> simpleEvaluate conv (k @ '' != '' @ dquote @ v @ dquote)
          = (GetString conv (TrimPrefix (TrimSpace k) ''data.'') \<noteq> Trim v quotes))"
proof -
  have eq: "simpleEvaluate conv (l @ ''=='' @ r)
          = (GetString conv (TrimPrefix (TrimSpace l) ''data.'') = Trim (TrimSpace r) quotes)"
    if "Index (l @ ''=='' @ r) ''=='' = Some (length l)" and "Index r ''=='' = None" for l r
  proof -
    have "Split (l @ ''=='' @ r) ''=='' = [l, r]"
      using that by (intro Split_once) simp_all
    then show ?thesis
      by (simp add: simpleEvaluate_def)
  qed
  have ne: "simpleEvaluate conv (l' @ ''!='' @ r')
          = (GetString conv (TrimPrefix (TrimSpace l') ''data.'') \<noteq> Trim (TrimSpace r') quotes)"
    if "length (Split (l' @ ''!='' @ r') ''=='') \<noteq> 2"
      and "Index (l' @ ''!='' @ r') ''!='' = Some (length l')" and "Index r' ''!='' = None"
    for l' r'
  proof -
    have "Split (l' @ ''!='' @ r') ''!='' = [l', r']"
      using that(2,3) by (intro Split_once) simp_all
    then show ?thesis
      using that(1) by (simp add: simpleEvaluate_def)
  qed
  have gs: "GetString conv key = (case Data conv key of Some (StringVal s) \<Rightarrow> s | _ \<Rightarrow> [])"
    by (simp add: GetString_def Conversation_Get_def split: option.splits Value.splits)
  have other: "simpleEvaluate conv cond"
    if "length (Split cond ''=='') \<noteq> 2" and "length (Split cond ''!='') \<noteq> 2"
    using that by (simp add: simpleEvaluate_def)
  have none: "simpleEvaluate conv cond"
    if "Index cond ''=='' = None" and "Index cond ''!='' = None"
    using that by (simp add: simpleEvaluate_def Split_none)
  have plain: "simpleEvaluate conv (k @ '' == '' @ dquote @ v @ dquote)
          = (GetString conv (TrimPrefix (TrimSpace k) ''data.'') = Trim v quotes)
        \<and> simpleEvaluate conv (k @ '' != '' @ dquote @ v @ dquote)
          = (GetString conv (TrimPrefix (TrimSpace k) ''data.'') \<noteq> Trim v quotes)"
    if k: "CHR ''='' \<notin> set k" and v: "CHR ''='' \<notin> set v"
  proof -
    let ?l = "k @ '' ''" and ?r = "'' '' @ dquote @ v @ dquote"
    have l: "CHR ''='' \<notin> set ?l" and r: "CHR ''='' \<notin> set ?r"
      using k v by (simp_all add: dquote_def)
    have trims: "TrimSpace ?l = TrimSpace k" "Trim (TrimSpace ?r) quotes = Trim v quotes"
      by (simp_all only: TrimSpace_append_space TrimSpace_quoted Trim_quoted)
    have "simpleEvaluate conv (?l @ ''=='' @ ?r)
            = (GetString conv (TrimPrefix (TrimSpace ?l) ''data.'') = Trim (TrimSpace ?r) quotes)"
      using l r by (intro eq Index_eq_at Index_absent)
    moreover have "Index (?l @ ''!='' @ ?r) ''=='' = None"
      using l r by (rule Index_eq_in_ne)
    then have "Split (?l @ ''!='' @ ?r) ''=='' = [?l @ ''!='' @ ?r]"
      by (intro Split_none) simp_all
    then have "length (Split (?l @ ''!='' @ ?r) ''=='') \<noteq> 2"
      by simp
    then have "simpleEvaluate conv (?l @ ''!='' @ ?r)
            = (GetString conv (TrimPrefix (TrimSpace ?l) ''data.'') \<noteq> Trim (TrimSpace ?r) quotes)"
      using l r by (intro ne Index_ne_at Index_absent_ne)
    ultimately show ?thesis
      unfolding trims by simp
  qed
  show ?thesis
    using simpleEvaluate_empty eq ne gs other none plain by blast
qed

theorem simpleEvaluate_forms_witness:
  "simpleEvaluate exData (''data.color == '' @ dquote @ ''red'' @ dquote)
   \<and> \<not> simpleEvaluate exData (''color != '' @ dquote @ ''red'' @ dquote)
   \<and> GetString exData ''n'' = []
   \<and> simpleEvaluate exData ''color > 3''
   \<and> \<not> simpleEvaluate exData (''n == '' @ dquote @ ''5'' @ dquote)
   \<and> simpleEvaluate exData (''n != '' @ dquote @ ''5'' @ dquote)"
proof -
  let ?l = "''data.color ''" and ?r = "'' '' @ dquote @ ''red'' @ dquote"
  let ?l' = "''color ''"
  note inst = simpleEvaluate_forms
    [of exData ?l ?r ?l' ?r "''n''" "''color > 3''" "''n''" "''5''"]
  have d: "Data exData ''color'' = Some (StringVal ''red'')" "Data exData ''n'' = Some (IntVal 5)"
    by (simp_all add: exData_def)
  have i1: "Index (?l @ ''=='' @ ?r) ''=='' = Some (length ?l) \<and> Index ?r ''=='' = None"
    by (simp add: HasPrefix_def dquote_def)
  have i2: "length (Split (?l' @ ''!='' @ ?r) ''=='') \<noteq> 2
            \<and> Index (?l' @ ''!='' @ ?r) ''!='' = Some (length ?l') \<and> Index ?r ''!='' = None"
    by (simp add: Split.simps HasPrefix_def dquote_def)
  have i3: "Index ''color > 3'' ''=='' = None \<and> Index ''color > 3'' ''!='' = None"
    by (simp add: HasPrefix_def)
  have i4: "CHR ''='' \<notin> set ''n'' \<and> CHR ''='' \<notin> set ''5''"
    by simp
  have l: "TrimPrefix (TrimSpace ?l) ''data.'' = ''color''"
    "TrimPrefix (TrimSpace ?l') ''data.'' = ''color''"
    "TrimPrefix (TrimSpace ''n'') ''data.'' = ''n''"
    by (simp_all add: eval_strings)
  have r: "Trim (TrimSpace ?r) quotes = ''red''" "Trim ''5'' quotes = ''5''"
    by (simp_all add: eval_strings)
  have 1: "simpleEvaluate exData (?l @ ''=='' @ ?r)
             = (GetString exData (TrimPrefix (TrimSpace ?l) ''data.'') = Trim (TrimSpace ?r) quotes)"
    using inst i1 by blast
  have 2: "simpleEvaluate exData (?l' @ ''!='' @ ?r)
             = (GetString exData (TrimPrefix (TrimSpace ?l') ''data.'') \<noteq> Trim (TrimSpace ?r) quotes)"
    using inst i2 by blast
  have 3: "GetString exData ''n'' = (case Data exData ''n'' of Some (StringVal s) \<Rightarrow> s | _ \<Rightarrow> [])"
    using inst by blast
  have gc: "GetString exData ''color''
              = (case Data exData ''color'' of Some (StringVal s) \<Rightarrow> s | _ \<Rightarrow> [])"
    using simpleEvaluate_forms [of exData _ _ _ _ "''color''"] by blast
  have 4: "simpleEvaluate exData ''color > 3''"
    using inst i3 by blast
  have 5: "simpleEvaluate exData (''n'' @ '' == '' @ dquote @ ''5'' @ dquote)
             = (GetString exData (TrimPrefix (TrimSpace ''n'') ''data.'') = Trim ''5'' quotes)"
    and 6: "simpleEvaluate exData (''n'' @ '' != '' @ dquote @ ''5'' @ dquote)
             = (GetString exData (TrimPrefix (TrimSpace ''n'') ''data.'') \<noteq> Trim ''5'' quotes)"
    using inst i4 by blast+
  have c: "GetString exData ''color'' = ''red''"
    unfolding gc d by simp
  have a1: "simpleEvaluate exData (?l @ ''=='' @ ?r)"
    unfolding 1 l r c by simp
  have a2: "\<not> simpleEvaluate exData (?l' @ ''!='' @ ?r)"
    unfolding 2 l r c by simp
  have a3: "GetString exData ''n'' = []"
    unfolding 3 d by simp
  have a5: "\<not> simpleEvaluate exData (''n'' @ '' == '' @ dquote @ ''5'' @ dquote)"
    unfolding 5 l r a3 by simp
  have a6: "simpleEvaluate exData (''n'' @ '' != '' @ dquote @ ''5'' @ dquote)"
    unfolding 6 l r a3 by simp
  from a1 a2 a3 4 a5 a6 show ?thesis
    by simp
qed

subsection \<open>C9: the previous step and back navigation\<close>

text \<open>
  C9: with two or more history entries, \<open>GetPreviousStep\<close> is the step id of the
  second-to-last entry (\<open>s2\<close> for the history \<open>(s1,x), (s2,y), (s3,z)\<close>); with fewer it is
  the empty string. In that case \<open>handleBack\<close>, for a live session, ends the session and
  runs the main-menu navigation: the key leaves the map, the end hook (when set) is
  called once, the callback is answered twice (by \<open>handleBack\<close> and by \<open>handleMainMenu\<close>), the
  internal main-menu handler is called when it is registered, and no step is displayed.
\<close>

theorem GetPreviousStep_back:
  "(2 \<le> length (History c) \<longrightarrow> GetPreviousStep c = EntryStepID (last (butlast (History c))))
   \<and> GetPreviousStep
        (c\<lparr>History := [\<lparr>EntryStepID = ''s1'', Input = ''x'', Timestamp = t1\<rparr>,
                        \<lparr>EntryStepID = ''s2'', Input = ''y'', Timestamp = t2\<rparr>,
                        \<lparr>EntryStepID = ''s3'', Input = ''z'', Timestamp = t3\<rparr>]\<rparr>) = ''s2''
   \<and> (length (History d) < 2 \<longrightarrow> GetPreviousStep d = [])
   \<and> (conversations (mgr w) (conversationKey (QueryFrom q) (QueryChat q)) = Some a
       \<and> \<not> ExpiresAt (heap w a) < now \<and> length (History (heap w a)) < 2 \<longrightarrow>
       handleBack r now q w =
         w\<lparr>mgr := (mgr w)\<lparr>conversations :=
                 (conversations (mgr w))(conversationKey (QueryFrom q) (QueryChat q) := None)\<rparr>,
           trace := trace w @ [AnswerCallback (QueryID q) []]
                    @ (if onEnd (mgr w) then [OnEnd a] else [])
                    @ [AnswerCallback (QueryID q) []]
                    @ (if callbackHandlers r ''main_menu_internal''
                       then [CallbackHandlerCall ''main_menu_internal'' q] else [])\<rparr>)"
proof -
  have 1: "GetPreviousStep c = EntryStepID (last (butlast (History c)))"
    if len: "2 \<le> length (History c)"
  proof -
    from len have ne: "butlast (History c) \<noteq> []"
      by (cases "History c") (auto split: if_splits)
    have "last (butlast (History c)) = butlast (History c) ! (length (butlast (History c)) - 1)"
      using ne by (rule last_conv_nth)
    also have "\<dots> = History c ! (length (History c) - 2)"
      using len by (simp add: nth_butlast numeral_2_eq_2)
    finally show ?thesis
      using len by (simp add: GetPreviousStep_def)
  qed
  have 4: "handleBack r now q w =
         w\<lparr>mgr := (mgr w)\<lparr>conversations :=
                 (conversations (mgr w))(conversationKey (QueryFrom q) (QueryChat q) := None)\<rparr>,
           trace := trace w @ [AnswerCallback (QueryID q) []]
                    @ (if onEnd (mgr w) then [OnEnd a] else [])
                    @ [AnswerCallback (QueryID q) []]
                    @ (if callbackHandlers r ''main_menu_internal''
                       then [CallbackHandlerCall ''main_menu_internal'' q] else [])\<rparr>"
    if "conversations (mgr w) (conversationKey (QueryFrom q) (QueryChat q)) = Some a"
      and "\<not> ExpiresAt (heap w a) < now" and "length (History (heap w a)) < 2"
    using that
    by (simp add: handleBack_def Get_def IsExpired_def GetPreviousStep_def handleMainMenu_def
        End_def emit_def setConversations_def CallbackMainMenu_def Let_def)
  show ?thesis
    using 1 4 by (simp add: GetPreviousStep_def)
qed

theorem GetPreviousStep_back_witness:
  "GetPreviousStep
     (exConv\<lparr>History := [\<lparr>EntryStepID = ''s1'', Input = ''x'', Timestamp = 1\<rparr>,
                          \<lparr>EntryStepID = ''s2'', Input = ''y'', Timestamp = 2\<rparr>]\<rparr>) = ''s1''
   \<and> GetPreviousStep exConv = []
   \<and> handleBack (exRouter (exStep None [])) 3 exQuery exWorld =
       exWorld\<lparr>mgr := (mgr exWorld)\<lparr>conversations := Map.empty\<rparr>,
         trace := [AnswerCallback ''q1'' [], OnEnd 0, AnswerCallback ''q1'' [],
                   CallbackHandlerCall ''main_menu_internal'' exQuery]\<rparr>"
proof -
  let ?c = "exConv\<lparr>History := [\<lparr>EntryStepID = ''s1'', Input = ''x'', Timestamp = 1\<rparr>,
                          \<lparr>EntryStepID = ''s2'', Input = ''y'', Timestamp = 2\<rparr>]\<rparr>"
  have a: "2 \<le> length (History ?c)"
    by simp
  have b: "length (History exConv) < 2"
    by (simp add: exConv_def NewConversation_def)
  have c: "conversations (mgr exWorld) (conversationKey (QueryFrom exQuery) (QueryChat exQuery)) = Some 0
       \<and> \<not> ExpiresAt (heap exWorld 0) < 3 \<and> length (History (heap exWorld 0)) < 2"
    by (simp add: exWorld_def exQuery_def exConv_def NewConversation_def)
  have k: "conversationKey (QueryFrom exQuery) (QueryChat exQuery) = conversationKey 5 7"
    by (simp add: exQuery_def)
  have m: "(conversations (mgr exWorld))(conversationKey 5 7 := None) = Map.empty"
    by (simp add: exWorld_def)
  have h: "onEnd (mgr exWorld)" "trace exWorld = []"
    "callbackHandlers (exRouter (exStep None [])) ''main_menu_internal''" "QueryID exQuery = ''q1''"
    by (simp_all add: exWorld_def exRouter_def exQuery_def)
  from GetPreviousStep_back [of ?c 0 0 0 exConv exWorld exQuery 0 3 "exRouter (exStep None [])"]
  have "GetPreviousStep ?c = EntryStepID (last (butlast (History ?c)))"
    and "GetPreviousStep exConv = []"
    and "handleBack (exRouter (exStep None [])) 3 exQuery exWorld =
         exWorld\<lparr>mgr := (mgr exWorld)\<lparr>conversations :=
                 (conversations (mgr exWorld))(conversationKey (QueryFrom exQuery) (QueryChat exQuery) := None)\<rparr>,
           trace := trace exWorld @ [AnswerCallback (QueryID exQuery) []]
                    @ (if onEnd (mgr exWorld) then [OnEnd 0] else [])
                    @ [AnswerCallback (QueryID exQuery) []]
                    @ (if callbackHandlers (exRouter (exStep None [])) ''main_menu_internal''
                       then [CallbackHandlerCall ''main_menu_internal'' exQuery] else [])\<rparr>"
    using a b c by blast+
  then show ?thesis
    by (simp add: k m h)
qed

end
